theory Spec2Isabelle
  imports Complex_Main "HOL-Library.Word"
begin

section \<open>JavaScript values shared by the pages\<close>

text \<open>
  A JavaScript string is a sequence of 16-bit code units. String literals of the
  source are written \<open>js ''...''\<close>: every literal of the pages is ASCII, so each
  character is one code unit.
\<close>

type_synonym code_unit = "16 word"
type_synonym jsstring = "code_unit list"

definition js :: "string \<Rightarrow> jsstring" where
  "js s = map (\<lambda>c. of_nat (of_char c)) s"

text \<open>
  A thrown error has a \<open>name\<close>, which tells its kind, and may have a \<open>message\<close>. An
  awaited promise either resolves with a value or rejects with the error thrown.
\<close>

datatype js_error = Thrown (error_name: jsstring) (error_message: "jsstring option")

datatype 'a awaited = Resolved 'a | Rejected js_error

text \<open>
  Timestamps are the instants they denote, in milliseconds since the epoch (what
  \<open>Date.getTime()\<close> returns). \<open>new Date()\<close> reads the clock; each read is an input
  of the operation that makes it.
\<close>

type_synonym instant = int

text \<open>
  The parts of a time value and the way back from them, as ECMA-262 defines them for
  \<open>Date\<close> objects. Division rounds down and the remainder is never negative, as it does
  there. \<open>TimeClip\<close> is left out: it changes no time within \<open>8.64 \<times> 10\<^sup>1\<^sup>5\<close> milliseconds
  of the epoch, and the reads of a clock and the times minutes away from them are far
  inside.
\<close>

definition msPerSecond :: int where
  "msPerSecond = 1000"

definition msPerMinute :: int where
  "msPerMinute = 60000"

definition msPerHour :: int where
  "msPerHour = 3600000"

definition msPerDay :: int where
  "msPerDay = 86400000"

definition Day :: "int \<Rightarrow> int" where
  "Day t = t div msPerDay"

definition HourFromTime :: "int \<Rightarrow> int" where
  "HourFromTime t = (t div msPerHour) mod 24"

definition MinFromTime :: "int \<Rightarrow> int" where
  "MinFromTime t = (t div msPerMinute) mod 60"

definition SecFromTime :: "int \<Rightarrow> int" where
  "SecFromTime t = (t div msPerSecond) mod 60"

definition msFromTime :: "int \<Rightarrow> int" where
  "msFromTime t = t mod msPerSecond"

definition MakeTime :: "int \<Rightarrow> int \<Rightarrow> int \<Rightarrow> int \<Rightarrow> int" where
  "MakeTime hour minute sec ms = hour * msPerHour + minute * msPerMinute + sec * msPerSecond + ms"

definition MakeDate :: "int \<Rightarrow> int \<Rightarrow> int" where
  "MakeDate day tm = day * msPerDay + tm"

text \<open>
  The time zone of the machine the page runs on is ECMA-262's \<open>LocalTZA(t, isUTC)\<close>: the
  offset of local time from UTC in milliseconds, in effect at the instant \<open>t\<close> when
  \<open>isUTC\<close> is true and at the local time \<open>t\<close> when it is false (a local time that a
  clock change repeats or skips is read with the offset before the change).
  \<open>getMinutes\<close> and \<open>setMinutes\<close> work on local time.
\<close>

type_synonym time_zone = "int \<Rightarrow> bool \<Rightarrow> int"

definition LocalTime :: "time_zone \<Rightarrow> instant \<Rightarrow> int" where
  "LocalTime zone t = t + zone t True"

definition UTC :: "time_zone \<Rightarrow> int \<Rightarrow> instant" where
  "UTC zone t = t - zone t False"

definition getMinutes :: "time_zone \<Rightarrow> instant \<Rightarrow> int" where
  "getMinutes zone d = MinFromTime (LocalTime zone d)"

definition setMinutes :: "time_zone \<Rightarrow> instant \<Rightarrow> int \<Rightarrow> instant" where
  "setMinutes zone d minute =
     (let t = LocalTime zone d;
          date = MakeDate (Day t) (MakeTime (HourFromTime t) minute (SecFromTime t) (msFromTime t))
      in UTC zone date)"

section \<open>JSON text\<close>

subsection \<open>\<open>JSON.stringify\<close> on the QR payload\<close>

text \<open>
  \<open>QuoteJSONString\<close> of ECMA-262: the string between double quotes, with \<open>"\<close>,
  \<open>\\<close> and the control characters escaped, a surrogate that is not half of a pair
  written as \<open>\uXXXX\<close> (lower-case hexadecimal), and every other code unit as it is.
\<close>

definition hex_digit :: "nat \<Rightarrow> code_unit" where
  "hex_digit n = (if n < 10 then of_nat (48 + n) else of_nat (87 + n))"

definition UnicodeEscape :: "code_unit \<Rightarrow> jsstring" where
  "UnicodeEscape c =
     [0x5C, 0x75, hex_digit (unat c div 4096), hex_digit (unat c div 256 mod 16),
      hex_digit (unat c div 16 mod 16), hex_digit (unat c mod 16)]"

definition is_leading_surrogate :: "code_unit \<Rightarrow> bool" where
  "is_leading_surrogate c \<longleftrightarrow> 0xD800 \<le> c \<and> c \<le> 0xDBFF"

definition is_trailing_surrogate :: "code_unit \<Rightarrow> bool" where
  "is_trailing_surrogate c \<longleftrightarrow> 0xDC00 \<le> c \<and> c \<le> 0xDFFF"

definition quote_unit :: "code_unit \<Rightarrow> jsstring" where
  "quote_unit c =
     (if c = 0x08 then [0x5C, 0x62]
      else if c = 0x09 then [0x5C, 0x74]
      else if c = 0x0A then [0x5C, 0x6E]
      else if c = 0x0C then [0x5C, 0x66]
      else if c = 0x0D then [0x5C, 0x72]
      else if c = 0x22 then [0x5C, 0x22]
      else if c = 0x5C then [0x5C, 0x5C]
      else if c < 0x20 \<or> is_leading_surrogate c \<or> is_trailing_surrogate c then UnicodeEscape c
      else [c])"

fun quote_units :: "jsstring \<Rightarrow> jsstring" where
  "quote_units [] = []"
| "quote_units [c] = quote_unit c"
| "quote_units (c # d # cs) =
     (if is_leading_surrogate c \<and> is_trailing_surrogate d then c # d # quote_units cs
      else quote_unit c @ quote_units (d # cs))"

definition QuoteJSONString :: "jsstring \<Rightarrow> jsstring" where
  "QuoteJSONString s = 0x22 # quote_units s @ [0x22]"

text \<open>
  The numbers of the payload are the form's duration in minutes and the constant 10.
  The data model has the duration as a whole number of minutes; it is taken to be a
  safe integer (\<open>Number.isSafeInteger\<close>: at most \<open>2\<^sup>5\<^sup>3 - 1\<close> in size), which a double
  holds exactly. On a safe integer \<open>Number::toString\<close> gives the decimal digits, with a
  minus sign when negative: the shortest digits that read back as the number are all of
  its digits up to the trailing zeros, and no exponent is written below \<open>10\<^sup>2\<^sup>1\<close>.
\<close>

typedef safe_integer = "{i :: int. - 9007199254740991 \<le> i \<and> i \<le> 9007199254740991}"
  morphisms integer_of safe
  by (rule exI [of _ 0]) simp

fun decimal_digits :: "nat \<Rightarrow> jsstring" where
  "decimal_digits n =
     (if n < 10 then [of_nat (48 + n)] else decimal_digits (n div 10) @ [of_nat (48 + n mod 10)])"

declare decimal_digits.simps [simp del]

definition Number_toString :: "safe_integer \<Rightarrow> jsstring" where
  "Number_toString x =
     (if integer_of x < 0 then 0x2D # decimal_digits (nat (- integer_of x))
      else decimal_digits (nat (integer_of x)))"

text \<open>The object literal \<open>qrData\<close> of \<open>onSubmit\<close>, and \<open>JSON.stringify\<close> on it.\<close>

record qr_data =
  sessionId :: jsstring
  name :: jsstring
  date :: jsstring
  time :: jsstring
  duration :: safe_integer
  generatedAt :: jsstring
  expiresAfter :: safe_integer

definition JSON_stringify :: "qr_data \<Rightarrow> jsstring" where
  "JSON_stringify q =
     js ''{\"sessionId\":'' @ QuoteJSONString (qr_data.sessionId q) @
     js '',\"name\":'' @ QuoteJSONString (qr_data.name q) @
     js '',\"date\":'' @ QuoteJSONString (qr_data.date q) @
     js '',\"time\":'' @ QuoteJSONString (qr_data.time q) @
     js '',\"duration\":'' @ Number_toString (qr_data.duration q) @
     js '',\"generatedAt\":'' @ QuoteJSONString (generatedAt q) @
     js '',\"expiresAfter\":'' @ Number_toString (expiresAfter q) @
     js ''}''"

subsection \<open>\<open>JSON.parse\<close>\<close>

text \<open>
  A parsed JSON value. An object keeps its members in the order of the text; a number
  keeps the exact value of its literal, which JavaScript then rounds to the nearest
  double.
\<close>

datatype json =
    JNull
  | JBool bool
  | JNum rat
  | JStr jsstring
  | JArr "json list"
  | JObj "(jsstring \<times> json) list"

definition is_ws :: "code_unit \<Rightarrow> bool" where
  "is_ws c \<longleftrightarrow> c = 0x09 \<or> c = 0x0A \<or> c = 0x0D \<or> c = 0x20"

definition skip_ws :: "jsstring \<Rightarrow> jsstring" where
  "skip_ws s = dropWhile is_ws s"

definition is_digit :: "code_unit \<Rightarrow> bool" where
  "is_digit c \<longleftrightarrow> 0x30 \<le> c \<and> c \<le> 0x39"

definition decimal :: "jsstring \<Rightarrow> nat" where
  "decimal ds = foldl (\<lambda>a c. 10 * a + (unat c - 48)) 0 ds"

definition hex_value :: "code_unit \<Rightarrow> nat option" where
  "hex_value c =
     (if 0x30 \<le> c \<and> c \<le> 0x39 then Some (unat c - 48)
      else if 0x61 \<le> c \<and> c \<le> 0x66 then Some (unat c - 87)
      else if 0x41 \<le> c \<and> c \<le> 0x46 then Some (unat c - 55)
      else None)"

definition hex4 :: "code_unit \<Rightarrow> code_unit \<Rightarrow> code_unit \<Rightarrow> code_unit \<Rightarrow> code_unit option" where
  "hex4 a b c d =
     (case (hex_value a, hex_value b, hex_value c, hex_value d) of
        (Some h3, Some h2, Some h1, Some h0) \<Rightarrow> Some (of_nat (((h3 * 16 + h2) * 16 + h1) * 16 + h0))
      | _ \<Rightarrow> None)"

definition unescape :: "code_unit \<Rightarrow> code_unit option" where
  "unescape e =
     (if e = 0x22 \<or> e = 0x2F \<or> e = 0x5C then Some e
      else if e = 0x62 then Some 0x08
      else if e = 0x66 then Some 0x0C
      else if e = 0x6E then Some 0x0A
      else if e = 0x72 then Some 0x0D
      else if e = 0x74 then Some 0x09
      else None)"

text \<open>
  The characters of a string after its opening quote, up to the closing one: the
  string's value and the text that follows it.
\<close>

fun parse_chars :: "jsstring \<Rightarrow> (jsstring \<times> jsstring) option" where
  "parse_chars [] = None"
| "parse_chars (c # cs) =
     (if c = 0x22 then Some ([], cs)
      else if c = 0x5C then
        (case cs of
           [] \<Rightarrow> None
         | e # es \<Rightarrow>
             if e = 0x75 then
               (case es of
                  h3 # h2 # h1 # h0 # r \<Rightarrow>
                    (case hex4 h3 h2 h1 h0 of
                       None \<Rightarrow> None
                     | Some u \<Rightarrow> map_option (\<lambda>(v, t). (u # v, t)) (parse_chars r))
                | _ \<Rightarrow> None)
             else
               (case unescape e of
                  None \<Rightarrow> None
                | Some u \<Rightarrow> map_option (\<lambda>(v, t). (u # v, t)) (parse_chars es)))
      else if c < 0x20 then None
      else map_option (\<lambda>(v, t). (c # v, t)) (parse_chars cs))"

text \<open>
  A number: an optional minus sign, \<open>0\<close> or digits that do not start with \<open>0\<close>, an
  optional fraction and an optional exponent.
\<close>

definition integer_part :: "jsstring \<Rightarrow> jsstring" where
  "integer_part s = (case s of [] \<Rightarrow> [] | c # r \<Rightarrow> if c = 0x30 then [c] else takeWhile is_digit s)"

definition fraction_part :: "jsstring \<Rightarrow> (jsstring \<times> jsstring) option" where
  "fraction_part s =
     (case s of
        [] \<Rightarrow> Some ([], s)
      | c # r \<Rightarrow>
          if c = 0x2E then
            (if takeWhile is_digit r = [] then None
             else Some (takeWhile is_digit r, dropWhile is_digit r))
          else Some ([], s))"

definition exponent_part :: "jsstring \<Rightarrow> (int \<times> jsstring) option" where
  "exponent_part s =
     (case s of
        [] \<Rightarrow> Some (0, s)
      | c # r \<Rightarrow>
          if c = 0x65 \<or> c = 0x45 then
            (let negative = (r \<noteq> [] \<and> hd r = 0x2D);
                 r' = (if r \<noteq> [] \<and> (hd r = 0x2D \<or> hd r = 0x2B) then tl r else r)
             in if takeWhile is_digit r' = [] then None
                else Some ((if negative then - int (decimal (takeWhile is_digit r'))
                            else int (decimal (takeWhile is_digit r'))),
                           dropWhile is_digit r'))
          else Some (0, s))"

definition power_of_ten :: "int \<Rightarrow> rat" where
  "power_of_ten e = (if 0 \<le> e then 10 ^ nat e else 1 / 10 ^ nat (- e))"

definition parse_number :: "jsstring \<Rightarrow> (rat \<times> jsstring) option" where
  "parse_number s =
     (let negative = (s \<noteq> [] \<and> hd s = 0x2D);
          s1 = (if negative then tl s else s);
          ip = integer_part s1
      in if ip = [] then None
         else
           (case fraction_part (drop (length ip) s1) of
              None \<Rightarrow> None
            | Some (fd, s3) \<Rightarrow>
                (case exponent_part s3 of
                   None \<Rightarrow> None
                 | Some (ex, s4) \<Rightarrow>
                     Some ((if negative then - 1 else 1) *
                           (of_nat (decimal ip) + of_nat (decimal fd) / 10 ^ length fd) *
                           power_of_ten ex, s4))))"

definition parse_literal :: "jsstring \<Rightarrow> (json \<times> jsstring) option" where
  "parse_literal s =
     (if take 4 s = js ''null'' then Some (JNull, drop 4 s)
      else if take 4 s = js ''true'' then Some (JBool True, drop 4 s)
      else if take 5 s = js ''false'' then Some (JBool False, drop 5 s)
      else None)"

text \<open>
  Values, the members of an object after its \<open>{\<close> and the elements of an array after
  its \<open>[\<close>. The first argument bounds the number of nested calls. Of any two nested
  calls at least one is made after a code unit has been read, so a bound above twice
  the length of the text is never used up.
\<close>

fun parse_value :: "nat \<Rightarrow> jsstring \<Rightarrow> (json \<times> jsstring) option"
  and parse_members :: "nat \<Rightarrow> jsstring \<Rightarrow> ((jsstring \<times> json) list \<times> jsstring) option"
  and parse_elements :: "nat \<Rightarrow> jsstring \<Rightarrow> (json list \<times> jsstring) option"
where
  "parse_value 0 s = None"
| "parse_value (Suc n) s =
     (case skip_ws s of
        [] \<Rightarrow> None
      | c # r \<Rightarrow>
          if c = 0x7B then
            (case skip_ws r of
               [] \<Rightarrow> None
             | c' # r' \<Rightarrow>
                 if c' = 0x7D then Some (JObj [], r')
                 else map_option (\<lambda>(ms, t). (JObj ms, t)) (parse_members n (c' # r')))
          else if c = 0x5B then
            (case skip_ws r of
               [] \<Rightarrow> None
             | c' # r' \<Rightarrow>
                 if c' = 0x5D then Some (JArr [], r')
                 else map_option (\<lambda>(vs, t). (JArr vs, t)) (parse_elements n (c' # r')))
          else if c = 0x22 then map_option (\<lambda>(v, t). (JStr v, t)) (parse_chars r)
          else if c = 0x2D \<or> is_digit c then map_option (\<lambda>(x, t). (JNum x, t)) (parse_number (c # r))
          else parse_literal (c # r))"
| "parse_members 0 s = None"
| "parse_members (Suc n) s =
     (case skip_ws s of
        [] \<Rightarrow> None
      | c # r \<Rightarrow>
          if c \<noteq> 0x22 then None
          else
            (case parse_chars r of
               None \<Rightarrow> None
             | Some (k, r1) \<Rightarrow>
                 (case skip_ws r1 of
                    [] \<Rightarrow> None
                  | c1 # r2 \<Rightarrow>
                      if c1 \<noteq> 0x3A then None
                      else
                        (case parse_value n r2 of
                           None \<Rightarrow> None
                         | Some (v, r3) \<Rightarrow>
                             (case skip_ws r3 of
                                [] \<Rightarrow> None
                              | c3 # r4 \<Rightarrow>
                                  if c3 = 0x2C then
                                    map_option (\<lambda>(ms, t). ((k, v) # ms, t)) (parse_members n r4)
                                  else if c3 = 0x7D then Some ([(k, v)], r4)
                                  else None)))))"
| "parse_elements 0 s = None"
| "parse_elements (Suc n) s =
     (case parse_value n s of
        None \<Rightarrow> None
      | Some (v, r) \<Rightarrow>
          (case skip_ws r of
             [] \<Rightarrow> None
           | c # r' \<Rightarrow>
               if c = 0x2C then map_option (\<lambda>(vs, t). (v # vs, t)) (parse_elements n r')
               else if c = 0x5D then Some ([v], r')
               else None))"

text \<open>\<open>JSON.parse\<close>: one value, then nothing but white space. \<open>None\<close> is its SyntaxError.\<close>

definition JSON_parse :: "jsstring \<Rightarrow> json option" where
  "JSON_parse text =
     (case parse_value (Suc (2 * length text)) text of
        None \<Rightarrow> None
      | Some (v, r) \<Rightarrow> if skip_ws r = [] then Some v else None)"

text \<open>
  Reading a property of a parsed value: \<open>None\<close> is \<open>undefined\<close>. Of a repeated key the
  last member counts. Only an object has properties of its own; the property names
  used here are on no prototype. Reading a property of \<open>null\<close> throws, which the callers
  handle before they use this.
\<close>

definition property :: "json \<Rightarrow> jsstring \<Rightarrow> json option" where
  "property v k = (case v of JObj ms \<Rightarrow> map_of (rev ms) k | _ \<Rightarrow> None)"

text \<open>
  Truthiness. A number is falsy when its double is zero, that is when the literal's
  value is at most half the least positive double, \<open>2\<^sup>-\<^sup>1\<^sup>0\<^sup>7\<^sup>4\<close>.
\<close>

fun truthy :: "json \<Rightarrow> bool" where
  "truthy JNull = False"
| "truthy (JBool b) = b"
| "truthy (JNum x) = (\<bar>x\<bar> > 1 / 2 ^ 1075)"
| "truthy (JStr s) = (s \<noteq> [])"
| "truthy (JArr vs) = True"
| "truthy (JObj ms) = True"

text \<open>
  What \<open>JSON.parse\<close> makes of the stringified payload, and the strings that need no
  escape (the keys of the payload are such).
\<close>

definition parsed_payload :: "qr_data \<Rightarrow> json" where
  "parsed_payload q =
     JObj [(js ''sessionId'', JStr (qr_data.sessionId q)),
           (js ''name'', JStr (qr_data.name q)),
           (js ''date'', JStr (qr_data.date q)),
           (js ''time'', JStr (qr_data.time q)),
           (js ''duration'', JNum (of_int (integer_of (qr_data.duration q)))),
           (js ''generatedAt'', JStr (generatedAt q)),
           (js ''expiresAfter'', JNum (of_int (integer_of (expiresAfter q))))]"

definition plain :: "jsstring \<Rightarrow> bool" where
  "plain k \<longleftrightarrow> (\<forall>c \<in> set k. \<not> c < 0x20 \<and> c \<noteq> 0x22 \<and> c \<noteq> 0x5C)"

section \<open>The form of the QR generator\<close>

text \<open>
  \<open>FormValues\<close>, after the schema has accepted them: \<open>name\<close>, \<open>date\<close> and \<open>time\<close> are
  not empty and \<open>duration\<close> is at least 1.
\<close>

record form_values =
  name :: jsstring
  date :: jsstring
  time :: jsstring
  duration :: safe_integer

section \<open>The store, as the pages use it\<close>

text \<open>
  A row of the \<open>sessions\<close> table, with the columns \<open>onSubmit\<close> writes and the
  \<open>id\<close> the store assigns (\<open>onSubmit\<close> sends none).
\<close>

record session =
  row_id :: jsstring
  name :: jsstring
  date :: jsstring
  time :: jsstring
  duration :: safe_integer
  qr_code :: jsstring
  expires_at :: instant
  is_active :: bool
  created_at :: instant

text \<open>A row of the \<open>attendance\<close> table (interface \<open>AttendanceRecord\<close>).\<close>

record attendance_record =
  record_id :: jsstring
  sessionId :: jsstring
  userId :: jsstring
  checkInTime :: instant
  status :: jsstring

text \<open>
  The client library answers every query with \<open>{ data, error }\<close>. Its single-row
  readers are the library's contract, not code of the pages: \<open>maybeSingle()\<close> gives the
  row when exactly one matches, \<open>null\<close> without an error when none does, and the error
  \<open>PGRST116\<close> when several do; \<open>single()\<close> gives the same error also when none does.
\<close>

record pg_error =
  code :: jsstring
  message :: jsstring

record 'a pg_response =
  data :: "'a option"
  error :: "pg_error option"

definition PGRST116 :: pg_error where
  "PGRST116 = \<lparr>code = js ''PGRST116'',
     message = js ''JSON object requested, multiple (or no) rows returned''\<rparr>"

definition maybeSingle :: "'a list \<Rightarrow> 'a pg_response" where
  "maybeSingle rows =
     (case rows of
        [] \<Rightarrow> \<lparr>data = None, error = None\<rparr>
      | [r] \<Rightarrow> \<lparr>data = Some r, error = None\<rparr>
      | _ \<Rightarrow> \<lparr>data = None, error = Some PGRST116\<rparr>)"

definition single :: "'a list \<Rightarrow> 'a pg_response" where
  "single rows =
     (case rows of
        [r] \<Rightarrow> \<lparr>data = Some r, error = None\<rparr>
      | _ \<Rightarrow> \<lparr>data = None, error = Some PGRST116\<rparr>)"

text \<open>
  \<open>from('sessions').select('*').eq('is_active', true).maybeSingle()\<close> and
  \<open>from('attendance').select('*').eq('session_id', s).eq('user_id', u).single()\<close>
  on a store that answers.
\<close>

definition select_active_session :: "session list \<Rightarrow> session pg_response" where
  "select_active_session sessions = maybeSingle (filter is_active sessions)"

definition select_attendance ::
  "attendance_record list \<Rightarrow> jsstring \<Rightarrow> jsstring \<Rightarrow> attendance_record pg_response" where
  "select_attendance records s u =
     single (filter (\<lambda>r. sessionId r = s \<and> userId r = u) records)"

text \<open>
  \<open>from('sessions').update({ is_active: false }).eq('is_active', true)\<close> and
  \<open>from('sessions').insert([sessionData])\<close>, when the store carries them out. The
  store assigns the new row's \<open>id\<close>.
\<close>

definition deactivate_active :: "session list \<Rightarrow> session list" where
  "deactivate_active sessions =
     map (\<lambda>s. if is_active s then s\<lparr>is_active := False\<rparr> else s) sessions"

definition insert_session :: "session list \<Rightarrow> session \<Rightarrow> session list" where
  "insert_session sessions s = sessions @ [s]"

section \<open>QR generator: \<open>onSubmit\<close>\<close>

text \<open>
  What one run of \<open>onSubmit\<close> gets from outside: the generated UUID, its three clock
  reads (for \<open>generatedAt\<close>, for \<open>qrExpirationDate\<close> and for \<open>created_at\<close>),
  \<open>Date.toISOString\<close>, the time zone of the machine, the outcome of
  \<open>QRCode.toDataURL\<close>, and the store's answers to the two writes: \<open>Resolved None\<close> when
  the write was carried out, \<open>Resolved (Some e)\<close> when the store answered with the error
  \<open>e\<close>, \<open>Rejected\<close> when the request threw. A write that is not carried out leaves the
  table as it was.
\<close>

record submit_env =
  uuidv4 :: jsstring
  generatedAt_clock :: instant
  toISOString :: "instant \<Rightarrow> jsstring"
  toDataURL :: "jsstring \<Rightarrow> jsstring awaited"
  qrExpirationDate_clock :: instant
  LocalTZA :: time_zone
  created_at_clock :: instant
  deactivation :: "pg_error option awaited"
  insertion :: "pg_error option awaited"
  assigned_id :: jsstring

text \<open>The state of the page that \<open>onSubmit\<close> sets.\<close>

record generator =
  qrValue :: jsstring
  qrUrl :: jsstring
  isSubmitting :: bool
  sessionSaved :: bool
  errorMessage :: "jsstring option"
  expiryTime :: "instant option"

definition qrData :: "submit_env \<Rightarrow> form_values \<Rightarrow> qr_data" where
  "qrData env values =
     \<lparr>qr_data.sessionId = uuidv4 env,
      qr_data.name = form_values.name values,
      qr_data.date = form_values.date values,
      qr_data.time = form_values.time values,
      qr_data.duration = form_values.duration values,
      generatedAt = toISOString env (generatedAt_clock env),
      expiresAfter = safe 10\<rparr>"

text \<open>
  \<open>qrExpirationDate\<close> is a clock read whose local minutes are then set to ten more.
  The stored \<open>expires_at\<close> is its ISO string with the \<open>.sss\<close> of the milliseconds
  removed, which denotes the instant with the milliseconds cut off.
\<close>

definition qrExpirationDate :: "submit_env \<Rightarrow> instant" where
  "qrExpirationDate env =
     (let d = qrExpirationDate_clock env
      in setMinutes (LocalTZA env) d (getMinutes (LocalTZA env) d + 10))"

definition without_milliseconds :: "instant \<Rightarrow> instant" where
  "without_milliseconds t = t - t mod 1000"

definition sessionData :: "submit_env \<Rightarrow> form_values \<Rightarrow> session" where
  "sessionData env values =
     \<lparr>row_id = assigned_id env,
      name = form_values.name values,
      date = form_values.date values,
      time = form_values.time values,
      duration = form_values.duration values,
      qr_code = JSON_stringify (qrData env values),
      expires_at = without_milliseconds (qrExpirationDate env),
      is_active = True,
      created_at = created_at_clock env\<rparr>"

text \<open>
  The outer \<open>catch\<close> and \<open>finally\<close>: the message of the error when it has one, else
  the default one.
\<close>

definition caught :: "jsstring option \<Rightarrow> generator \<Rightarrow> generator" where
  "caught m ui =
     ui\<lparr>errorMessage :=
          Some (case m of
                  Some t \<Rightarrow> t
                | None \<Rightarrow> js ''An error occurred while generating the QR code or saving the session.''),
        isSubmitting := False\<rparr>"

text \<open>
  \<open>onSubmit\<close> on the table of sessions and the page's state. The deactivation's
  error is logged and nothing else; the insert's error is thrown on. After a successful
  insert the notification and the refetch write no column modelled here and throw
  nothing.
\<close>

definition onSubmit ::
  "submit_env \<Rightarrow> form_values \<Rightarrow> session list \<times> generator \<Rightarrow> session list \<times> generator" where
  "onSubmit env values st =
     (let sessions = fst st;
          ui = (snd st)\<lparr>isSubmitting := True, sessionSaved := False, errorMessage := None\<rparr>;
          qrString = JSON_stringify (qrData env values);
          ui = ui\<lparr>qrValue := qrString\<rparr>
      in case toDataURL env qrString of
           Rejected e \<Rightarrow> (sessions, caught (error_message e) ui)
         | Resolved url \<Rightarrow>
             (let ui = ui\<lparr>qrUrl := url, expiryTime := Some (qrExpirationDate env)\<rparr>;
                  sessions =
                    (case deactivation env of
                       Resolved None \<Rightarrow> deactivate_active sessions
                     | _ \<Rightarrow> sessions)
              in case insertion env of
                   Resolved None \<Rightarrow>
                     (insert_session sessions (sessionData env values),
                      ui\<lparr>sessionSaved := True, isSubmitting := False\<rparr>)
                 | Resolved (Some e) \<Rightarrow>
                     (sessions, caught (Some (js ''Database error: '' @ message e)) ui)
                 | Rejected e \<Rightarrow> (sessions, caught (error_message e) ui)))"

section \<open>Student dashboard: \<open>fetchActiveSession\<close>\<close>

record dashboard =
  activeSession :: "session option"
  isCheckedIn :: bool

text \<open>
  \<open>fetchActiveSession\<close> of the student dashboard. \<open>user\<close> is the signed-in user's id
  (\<open>None\<close> when there is none); \<open>sessions_query\<close> is the answer of the
  active-session read and \<open>attendance_query\<close> that of the attendance read for a session
  and a user. A rejected await lands in the \<open>catch\<close>, which only logs.
\<close>

definition fetchActiveSession ::
  "jsstring option \<Rightarrow> session pg_response awaited \<Rightarrow>
   (jsstring \<Rightarrow> jsstring \<Rightarrow> attendance_record pg_response awaited) \<Rightarrow>
   dashboard \<Rightarrow> dashboard" where
  "fetchActiveSession user sessions_query attendance_query st =
     (case sessions_query of
        Rejected _ \<Rightarrow> st
      | Resolved r \<Rightarrow>
          (case error r of
             Some e \<Rightarrow>
               if code e = js ''PGRST116'' then st\<lparr>activeSession := None\<rparr> else st
           | None \<Rightarrow>
               (let st' = st\<lparr>activeSession := data r\<rparr> in
                case (data r, user) of
                  (Some s, Some u) \<Rightarrow>
                    (case attendance_query (row_id s) u of
                       Rejected _ \<Rightarrow> st'
                     | Resolved a \<Rightarrow> st'\<lparr>isCheckedIn := (data a \<noteq> None)\<rparr>)
                | _ \<Rightarrow> st')))"

section \<open>Student scanner: \<open>handleQrCodeScan\<close>\<close>

text \<open>
  The check of the scanned text (the inner \<open>try\<close>): it throws one error with one
  message whether \<open>JSON.parse\<close> throws, the value is \<open>null\<close> (reading its property
  throws) or \<open>sessionId\<close> is missing or falsy. \<open>Inl\<close> carries the message.
\<close>

definition invalid_format :: jsstring where
  "invalid_format = js ''Invalid QR code format - could not parse QR data''"

definition decode :: "jsstring \<Rightarrow> jsstring + json" where
  "decode decodedText =
     (case JSON_parse decodedText of
        None \<Rightarrow> Inl invalid_format
      | Some parsedQR \<Rightarrow>
          if parsedQR = JNull then Inl invalid_format
          else
            (case property parsedQR (js ''sessionId'') of
               None \<Rightarrow> Inl invalid_format
             | Some v \<Rightarrow> if truthy v then Inr parsedQR else Inl invalid_format))"

text \<open>
  \<open>String.prototype.toLowerCase\<close> and \<open>includes\<close>. Only the letters A to Z are
  mapped; no other code unit lower-cases to text in which the word searched for here
  could start or go on, so the search gives what it gives in JavaScript.
\<close>

definition toLowerCase :: "jsstring \<Rightarrow> jsstring" where
  "toLowerCase s = map (\<lambda>c. if 0x41 \<le> c \<and> c \<le> 0x5A then c + 0x20 else c) s"

fun String_includes :: "jsstring \<Rightarrow> jsstring \<Rightarrow> bool" where
  "String_includes [] p = (p = [])"
| "String_includes (c # cs) p = (take (length p) (c # cs) = p \<or> String_includes cs p)"

record scanner =
  scanSuccess :: bool
  scanError :: bool
  errorMessage :: jsstring
  isExpired :: bool


text \<open>
  \<open>isCheckedIn\<close> of the scanner and of the student home page: some fetched record is
  for the active session. Without fetched records it is \<open>undefined\<close>, which every use
  treats as false; without an active session a record matches only if it has no
  session id either, which a fetched record always has.
\<close>

definition isCheckedIn_page :: "attendance_record list option \<Rightarrow> session option \<Rightarrow> bool" where
  "isCheckedIn_page attendanceRecords active =
     (case (attendanceRecords, active) of
        (Some records, Some s) \<Rightarrow> list_ex (\<lambda>r. sessionId r = row_id s) records
      | _ \<Rightarrow> False)"

section \<open>Attendance Recorder\<close>

text \<open>
  Modelled from the spec: \<open>recordAttendance\<close>. The scanner hands the scanned text to
  \<open>markAttendanceWithQR\<close> of \<open>@/lib/qrcode\<close>, which is not among the sources, and no
  source file holds the steps that look the session up, check its expiry and write the
  record. The definition follows section 4.4 of the spec step by step: decode; look the
  session up by the payload's \<open>sessionId\<close>; check \<open>now \<le> expiresAt\<close>; return the
  existing record for the session and the user if there is one; otherwise insert a
  record with status present and the check-in time \<open>now\<close>. The flag tells a new record
  from one that was there. \<open>fresh\<close> is the identifier the store gives a new record.
\<close>

datatype scan_error = MalformedPayload | UnknownSession | ExpiredCode

datatype recorded = Newly_recorded | Already_recorded

definition recordAttendance ::
  "session list \<Rightarrow> instant \<Rightarrow> jsstring \<Rightarrow> attendance_record list \<Rightarrow> jsstring \<Rightarrow> jsstring \<Rightarrow>
   scan_error + (attendance_record \<times> recorded \<times> attendance_record list)" where
  "recordAttendance sessions now fresh records rawScanText requestingUserId =
     (case decode rawScanText of
        Inl m \<Rightarrow> Inl MalformedPayload
      | Inr payload \<Rightarrow>
          (case find (\<lambda>s. property payload (js ''sessionId'') = Some (JStr (row_id s))) sessions of
             None \<Rightarrow> Inl UnknownSession
           | Some s \<Rightarrow>
               if \<not> now \<le> expires_at s then Inl ExpiredCode
               else
                 (case find (\<lambda>r. sessionId r = row_id s \<and> userId r = requestingUserId) records of
                    Some r \<Rightarrow> Inr (r, Already_recorded, records)
                  | None \<Rightarrow>
                      (let r = \<lparr>record_id = fresh, sessionId = row_id s,
                                 userId = requestingUserId, checkInTime = now,
                                 status = js ''present''\<rparr>
                       in Inr (r, Newly_recorded, records @ [r])))))"

section \<open>Student home page: \<open>attendanceRate\<close>\<close>

text \<open>
  JavaScript numbers are IEEE 754 doubles. The counts are whole numbers below \<open>2\<^sup>3\<^sup>2\<close>
  (an array is no longer), so the quotient \<open>present / total\<close> and its product with 100
  are positive doubles in the normal range: each is the exact result rounded to 53
  significant bits, to the nearest and on a tie to the even one. A positive double is
  kept as a pair \<open>(m, e)\<close> that stands for \<open>m \<times> 2\<^sup>e\<close>.
\<close>

type_synonym double = "int \<times> int"

fun bit_length :: "nat \<Rightarrow> nat" where
  "bit_length n = (if n = 0 then 0 else Suc (bit_length (n div 2)))"

declare bit_length.simps [simp del]

text \<open>The integer nearest to \<open>a / b\<close>, the even one when two are as near.\<close>

definition nearest_even :: "nat \<Rightarrow> nat \<Rightarrow> nat" where
  "nearest_even a b =
     (let q = a div b; r = a mod b
      in if 2 * r < b then q
         else if b < 2 * r then q + 1
         else if even q then q else q + 1)"

text \<open>
  \<open>a / b\<close> for positive \<open>a\<close> and \<open>b\<close>, rounded to 53 significant bits. The exponent
  \<open>e\<close> is chosen with \<open>2\<^sup>5\<^sup>2 \<le> a / (b \<times> 2\<^sup>e) < 2\<^sup>5\<^sup>3\<close>.
\<close>

definition scaled :: "nat \<Rightarrow> nat \<Rightarrow> int \<Rightarrow> nat \<times> nat" where
  "scaled a b e = (if e < 0 then (a * 2 ^ nat (- e), b) else (a, b * 2 ^ nat e))"

definition binary64 :: "nat \<Rightarrow> nat \<Rightarrow> double" where
  "binary64 a b =
     (let e0 = int (bit_length a) - int (bit_length b) - 53;
          e = (if fst (scaled a b e0) < 2 ^ 53 * snd (scaled a b e0) then e0 else e0 + 1)
      in (int (nearest_even (fst (scaled a b e)) (snd (scaled a b e))), e))"

definition divide_double :: "nat \<Rightarrow> nat \<Rightarrow> double" where
  "divide_double a b = binary64 a b"

definition times_double :: "double \<Rightarrow> nat \<Rightarrow> double" where
  "times_double x k = (case binary64 (nat (fst x) * k) 1 of (m, e) \<Rightarrow> (m, e + snd x))"

text \<open>\<open>Math.round\<close>: the nearest integer, the greater one when two are as near.\<close>

definition Math_round :: "double \<Rightarrow> int" where
  "Math_round x =
     (case x of (m, e) \<Rightarrow>
        if 0 \<le> e then m * 2 ^ nat e
        else (2 * m + 2 ^ nat (- e)) div 2 ^ (nat (- e) + 1))"

text \<open>
  The three lines of the page. \<open>attendanceRecords\<close> is \<open>None\<close> while nothing has been
  fetched. With no record present the quotient is the double 0, as is its product
  with 100.
\<close>

definition totalSessions :: "attendance_record list option \<Rightarrow> nat" where
  "totalSessions attendanceRecords = (case attendanceRecords of None \<Rightarrow> 0 | Some rs \<Rightarrow> length rs)"

definition presentSessions :: "attendance_record list option \<Rightarrow> nat" where
  "presentSessions attendanceRecords =
     (case attendanceRecords of
        None \<Rightarrow> 0
      | Some rs \<Rightarrow> length (filter (\<lambda>r. status r = js ''present'') rs))"

definition attendanceRate :: "attendance_record list option \<Rightarrow> int" where
  "attendanceRate attendanceRecords =
     (if totalSessions attendanceRecords > 0 then
        (if presentSessions attendanceRecords = 0 then 0
         else Math_round (times_double
                (divide_double (presentSessions attendanceRecords) (totalSessions attendanceRecords)) 100))
      else 0)"

text \<open>
  The rate in the words of the specification, to compare with: 100 times the number of
  present records over the number of records, rounded to the nearest whole number, and
  0 for no records. A half is rounded up, as \<open>Math.round\<close> does: the nearest whole
  number to \<open>100 p / t\<close> is the integer part of \<open>(200 p + t) / (2 t)\<close>.
\<close>

definition attendanceRate_spec :: "attendance_record list \<Rightarrow> int" where
  "attendanceRate_spec records =
     (if records = [] then 0
      else int ((200 * length (filter (\<lambda>r. status r = js ''present'') records) + length records)
                  div (2 * length records)))"

section \<open>Sample data\<close>

text \<open>
  The session of the spec's scenario: CS101 on 2024-01-10 at 09:00, sixty minutes,
  created at 09:00:00.000 UTC and expiring ten minutes later.
\<close>

definition cs101 :: session where
  "cs101 = \<lparr>row_id = js ''1'', name = js ''CS101'', date = js ''2024-01-10'',
     time = js ''09:00'', duration = safe 60, qr_code = [],
     expires_at = 1704877800000, is_active = True, created_at = 1704877200000\<rparr>"

definition cs102 :: session where
  "cs102 = cs101\<lparr>row_id := js ''2'', name := js ''CS102''\<rparr>"

text \<open>
  A run of \<open>onSubmit\<close> for CS102 an hour later, on a machine in India (five and a
  half hours ahead of UTC all year), with both writes carried out; and the same run with
  the deactivation refused, and with the insert refused.
\<close>

definition cs102_form :: form_values where
  "cs102_form = \<lparr>form_values.name = js ''CS102'', form_values.date = js ''2024-01-10'',
     form_values.time = js ''10:00'', form_values.duration = safe 60\<rparr>"

definition refused :: pg_error where
  "refused = \<lparr>code = js ''42501'', message = js ''permission denied for table sessions''\<rparr>"

definition india :: time_zone where
  "india t isUTC = 19800000"

definition run_ok :: submit_env where
  "run_ok = \<lparr>uuidv4 = js ''3f2b8c1e-7a4d-4e0b-9c55-0d6a1b2c3d4e'',
     generatedAt_clock = 1704880800123,
     toISOString = (\<lambda>t. js ''2024-01-10T10:00:00.123Z''),
     toDataURL = (\<lambda>s. Resolved (js ''data:image/png;base64,'')),
     qrExpirationDate_clock = 1704880800123,
     LocalTZA = india,
     created_at_clock = 1704880800123,
     deactivation = Resolved None,
     insertion = Resolved None,
     assigned_id = js ''2''\<rparr>"

definition run_deactivation_refused :: submit_env where
  "run_deactivation_refused = run_ok\<lparr>deactivation := Resolved (Some refused)\<rparr>"

definition run_insert_refused :: submit_env where
  "run_insert_refused = run_ok\<lparr>insertion := Resolved (Some refused)\<rparr>"






definition blank_generator :: generator where
  "blank_generator = \<lparr>qrValue = [], qrUrl = [], isSubmitting = False, sessionSaved = False,
     errorMessage = None, expiryTime = None\<rparr>"

definition failed_to_fetch :: js_error where
  "failed_to_fetch = Thrown (js ''TypeError'') (Some (js ''Failed to fetch''))"


definition present_record :: attendance_record where
  "present_record = \<lparr>record_id = js ''a1'', sessionId = js ''1'', userId = js ''u1'',
     checkInTime = 1704877260000, status = js ''present''\<rparr>"

definition absent_record :: attendance_record where
  "absent_record = present_record\<lparr>status := js ''absent''\<rparr>"

definition idle_dashboard :: dashboard where
  "idle_dashboard = \<lparr>activeSession = None, isCheckedIn = False\<rparr>"

definition no_attendance :: "jsstring \<Rightarrow> jsstring \<Rightarrow> attendance_record pg_response awaited" where
  "no_attendance s u = Resolved (single [])"

section \<open>Results\<close>

subsection \<open>The bound on nested calls is never used up\<close>

lemma length_skip_ws: "length (skip_ws s) \<le> length s"
  by (simp add: skip_ws_def length_dropWhile_le)

lemma skip_ws_Cons_length: "skip_ws s = c # r \<Longrightarrow> length r < length s"
  using length_skip_ws [of s] by simp

lemma parse_chars_length: "parse_chars s = Some (v, r) \<Longrightarrow> length r < length s"
proof (induction s arbitrary: v r rule: parse_chars.induct)
  case 1
  then show ?case by simp
next
  case (2 c cs)
  then show ?case
    by (fastforce split: if_splits list.splits option.splits)
qed

lemma parse_number_length: "parse_number s = Some (x, r) \<Longrightarrow> length r \<le> length s"
proof -
  assume a: "parse_number s = Some (x, r)"
  have f: "length t \<le> length u" if "fraction_part u = Some (d, t)" for u d t
    using that length_dropWhile_le [of is_digit "tl u"]
    by (auto simp: fraction_part_def split: list.splits if_splits)
  have e: "length t \<le> length u" if "exponent_part u = Some (d, t)" for u d t
  proof (cases u)
    case Nil
    with that show ?thesis by (simp add: exponent_part_def)
  next
    case (Cons c w)
    have "length (dropWhile is_digit w) \<le> length w" "length (dropWhile is_digit (tl w)) \<le> length w"
      using length_dropWhile_le [of is_digit w] length_dropWhile_le [of is_digit "tl w"] by simp_all
    with that Cons show ?thesis
      by (auto simp: exponent_part_def Let_def split: if_splits)
  qed
  let ?s1 = "if s \<noteq> [] \<and> hd s = 0x2D then tl s else s"
  from a obtain fd s3 ex where
    1: "fraction_part (drop (length (integer_part ?s1)) ?s1) = Some (fd, s3)"
    and 2: "exponent_part s3 = Some (ex, r)"
    by (auto simp: parse_number_def Let_def split: if_splits option.splits)
  have "length r \<le> length s3" using 2 by (rule e)
  also have "\<dots> \<le> length (drop (length (integer_part ?s1)) ?s1)" using 1 by (rule f)
  also have "\<dots> \<le> length ?s1" by simp
  also have "\<dots> \<le> length s" by simp
  finally show ?thesis .
qed

lemma parse_literal_length: "parse_literal s = Some (v, r) \<Longrightarrow> length r \<le> length s"
  by (auto simp: parse_literal_def split: if_splits)

text \<open>How a successful call with a positive bound went.\<close>

lemma parse_value_Suc_Some:
  assumes "parse_value (Suc n) s = Some (v, t)"
  obtains
    (members) r c' r' ms where "skip_ws s = 0x7B # r" "skip_ws r = c' # r'" "c' \<noteq> 0x7D"
      "parse_members n (c' # r') = Some (ms, t)" "v = JObj ms"
  | (elements) r c' r' vs where "skip_ws s = 0x5B # r" "skip_ws r = c' # r'" "c' \<noteq> 0x5D"
      "parse_elements n (c' # r') = Some (vs, t)" "v = JArr vs"
  | (flat) "\<And>k. parse_value (Suc k) s = Some (v, t)" "length t \<le> length s"
proof (cases "skip_ws s")
  case Nil
  with assms show ?thesis by simp
next
  case (Cons c r)
  note s = Cons
  have lr: "length (c # r) \<le> length s" using length_skip_ws [of s] s by simp
  show ?thesis
  proof (cases "c = 0x7B \<or> c = 0x5B")
    case False
    then have *: "parse_value (Suc k) s =
        (if c = 0x22 then map_option (\<lambda>(v, t). (JStr v, t)) (parse_chars r)
         else if c = 0x2D \<or> is_digit c then map_option (\<lambda>(x, t). (JNum x, t)) (parse_number (c # r))
         else parse_literal (c # r))" for k
      using s by simp
    have "length t \<le> length (c # r)"
      using assms parse_chars_length [of r _ t] parse_number_length [of "c # r" _ t]
        parse_literal_length [of "c # r" v t]
      unfolding * by (auto split: if_splits)
    with lr have "length t \<le> length s" by simp
    moreover have "parse_value (Suc k) s = Some (v, t)" for k
      using assms unfolding * [of n] * [of k] .
    ultimately show ?thesis by (rule flat [rotated])
  next
    case True
    show ?thesis
    proof (cases "skip_ws r")
      case Nil
      with assms s True show ?thesis by (auto split: if_splits)
    next
      case (Cons c' r')
      note r = Cons
      have lr': "length (c' # r') \<le> length r" using length_skip_ws [of r] r by simp
      show ?thesis
      proof (cases "c = 0x7B")
        case True
        show ?thesis
        proof (cases "c' = 0x7D")
          case True
          with \<open>c = 0x7B\<close> s r assms have "v = JObj []" "t = r'" by simp_all
          moreover have "parse_value (Suc k) s = Some (JObj [], r')" for k
            using True \<open>c = 0x7B\<close> s r by simp
          ultimately show ?thesis using lr lr' by (intro flat) simp_all
        next
          case False
          with \<open>c = 0x7B\<close> s r assms obtain ms where
            "parse_members n (c' # r') = Some (ms, t)" "v = JObj ms" by auto
          with False \<open>c = 0x7B\<close> s r show ?thesis
            using members [of r c' r' ms] by simp
        qed
      next
        case False
        with True have a: "c = 0x5B" by simp
        show ?thesis
        proof (cases "c' = 0x5D")
          case True
          with a s r assms have "v = JArr []" "t = r'" by simp_all
          moreover have "parse_value (Suc k) s = Some (JArr [], r')" for k
            using True a s r by simp
          ultimately show ?thesis using lr lr' by (intro flat) simp_all
        next
          case False
          with a s r assms obtain vs where
            "parse_elements n (c' # r') = Some (vs, t)" "v = JArr vs" by auto
          with False a s r show ?thesis
            using elements [of r c' r' vs] by simp
        qed
      qed
    qed
  qed
qed

lemma parse_members_Suc_Some:
  assumes "parse_members (Suc n) s = Some (ms, t)"
  obtains r k r1 r2 v r3 c3 r4 where
    "skip_ws s = 0x22 # r" "parse_chars r = Some (k, r1)" "skip_ws r1 = 0x3A # r2"
    "parse_value n r2 = Some (v, r3)" "skip_ws r3 = c3 # r4"
    "(c3 = 0x2C \<and> (\<exists>ms'. parse_members n r4 = Some (ms', t) \<and> ms = (k, v) # ms'))
     \<or> (c3 = 0x7D \<and> ms = [(k, v)] \<and> t = r4)"
  using assms by (auto split: list.splits option.splits if_splits)

lemma parse_elements_Suc_Some:
  assumes "parse_elements (Suc n) s = Some (vs, t)"
  obtains v r c r' where
    "parse_value n s = Some (v, r)" "skip_ws r = c # r'"
    "(c = 0x2C \<and> (\<exists>vs'. parse_elements n r' = Some (vs', t) \<and> vs = v # vs'))
     \<or> (c = 0x5D \<and> vs = [v] \<and> t = r')"
  using assms by (auto split: list.splits option.splits if_splits)

lemma parse_lengths:
  "(\<forall>s v t. parse_value n s = Some (v, t) \<longrightarrow> length t \<le> length s)
   \<and> (\<forall>s ms t. parse_members n s = Some (ms, t) \<longrightarrow> length t \<le> length s)
   \<and> (\<forall>s vs t. parse_elements n s = Some (vs, t) \<longrightarrow> length t \<le> length s)"
proof (induction n)
  case 0
  show ?case by simp
next
  case (Suc n)
  then have IHv: "\<And>s v t. parse_value n s = Some (v, t) \<Longrightarrow> length t \<le> length s"
    and IHm: "\<And>s ms t. parse_members n s = Some (ms, t) \<Longrightarrow> length t \<le> length s"
    and IHe: "\<And>s vs t. parse_elements n s = Some (vs, t) \<Longrightarrow> length t \<le> length s"
    by simp_all
  have v: "length t \<le> length s" if "parse_value (Suc n) s = Some (v, t)" for s v t
    using that
  proof (cases rule: parse_value_Suc_Some)
    case (members r c' r' ms)
    then show ?thesis
      using IHm [of "c' # r'" ms t] skip_ws_Cons_length [of s _ r] skip_ws_Cons_length [of r c' r']
      by simp
  next
    case (elements r c' r' vs)
    then show ?thesis
      using IHe [of "c' # r'" vs t] skip_ws_Cons_length [of s _ r] skip_ws_Cons_length [of r c' r']
      by simp
  next
    case flat
    then show ?thesis by simp
  qed
  have m: "length t \<le> length s" if "parse_members (Suc n) s = Some (ms, t)" for s ms t
    using that
  proof (cases rule: parse_members_Suc_Some)
    case (1 r k r1 r2 v r3 c3 r4)
    have "length r4 < length r3" using 1(5) by (rule skip_ws_Cons_length)
    moreover have "length r3 \<le> length r2" using 1(4) by (rule IHv)
    moreover have "length r2 < length r1" using 1(3) by (rule skip_ws_Cons_length)
    moreover have "length r1 < length r" using 1(2) by (rule parse_chars_length)
    moreover have "length r < length s" using 1(1) by (rule skip_ws_Cons_length)
    ultimately have "length r4 \<le> length s" by simp
    with 1(6) IHm [of r4 _ t] show ?thesis by auto
  qed
  have e: "length t \<le> length s" if "parse_elements (Suc n) s = Some (vs, t)" for s vs t
    using that
  proof (cases rule: parse_elements_Suc_Some)
    case (1 v r c r')
    have "length r' < length r" using 1(2) by (rule skip_ws_Cons_length)
    moreover have "length r \<le> length s" using 1(1) by (rule IHv)
    ultimately have "length r' \<le> length s" by simp
    with 1(3) IHe [of r' _ t] show ?thesis by auto
  qed
  show ?case
  proof (intro conjI allI impI)
    fix s v t assume "parse_value (Suc n) s = Some (v, t)"
    then show "length t \<le> length s" by (rule v)
  next
    fix s ms t assume "parse_members (Suc n) s = Some (ms, t)"
    then show "length t \<le> length s" by (rule m)
  next
    fix s vs t assume "parse_elements (Suc n) s = Some (vs, t)"
    then show "length t \<le> length s" by (rule e)
  qed
qed

lemma parse_value_length: "parse_value n s = Some (v, t) \<Longrightarrow> length t \<le> length s"
  using parse_lengths [of n, THEN conjunct1, rule_format, of s v t] .

text \<open>
  A call that succeeds with some bound succeeds with the same result with every bound
  above twice the length of its text (for members and elements, one more).
\<close>

lemma parse_enough:
  "(\<forall>s x k. parse_value n s = Some x \<longrightarrow> 2 * length s < k \<longrightarrow> parse_value k s = Some x)
   \<and> (\<forall>s x k. parse_members n s = Some x \<longrightarrow> 2 * length s + 1 < k \<longrightarrow> parse_members k s = Some x)
   \<and> (\<forall>s x k. parse_elements n s = Some x \<longrightarrow> 2 * length s + 1 < k \<longrightarrow> parse_elements k s = Some x)"
proof (induction n)
  case 0
  show ?case by simp
next
  case (Suc n)
  note IHv = Suc.IH [THEN conjunct1, rule_format]
    and IHm = Suc.IH [THEN conjunct2, THEN conjunct1, rule_format]
    and IHe = Suc.IH [THEN conjunct2, THEN conjunct2, rule_format]
  have v: "parse_value k s = Some (v, t)"
    if "parse_value (Suc n) s = Some (v, t)" and k: "2 * length s < k" for s v t k
  proof -
    obtain k' where k': "k = Suc k'" using k by (cases k) auto
    from that(1) show ?thesis
    proof (cases rule: parse_value_Suc_Some)
      case (members r c' r' ms)
      have "length (c' # r') \<le> length r" using members(2) length_skip_ws [of r] by simp
      moreover have "length r < length s" using members(1) by (rule skip_ws_Cons_length)
      ultimately have "2 * length (c' # r') + 1 < k'" using k k' by simp
      with members(4) have "parse_members k' (c' # r') = Some (ms, t)" by (rule IHm)
      with members show ?thesis by (simp add: k')
    next
      case (elements r c' r' vs)
      have "length (c' # r') \<le> length r" using elements(2) length_skip_ws [of r] by simp
      moreover have "length r < length s" using elements(1) by (rule skip_ws_Cons_length)
      ultimately have "2 * length (c' # r') + 1 < k'" using k k' by simp
      with elements(4) have "parse_elements k' (c' # r') = Some (vs, t)" by (rule IHe)
      with elements show ?thesis by (simp add: k')
    next
      case flat
      then show ?thesis by (simp only: k')
    qed
  qed
  have m: "parse_members k s = Some (ms, t)"
    if "parse_members (Suc n) s = Some (ms, t)" and k: "2 * length s + 1 < k" for s ms t k
  proof -
    obtain k' where k': "k = Suc k'" using k by (cases k) auto
    from that(1) show ?thesis
    proof (cases rule: parse_members_Suc_Some)
      case (1 r key r1 r2 v r3 c3 r4)
      have l: "length r4 < length r3" "length r3 \<le> length r2" "length r2 < length r1"
        "length r1 < length r" "length r < length s"
        using 1(5) skip_ws_Cons_length apply blast
        using 1(4) parse_value_length apply blast
        using 1(3) skip_ws_Cons_length apply blast
        using 1(2) parse_chars_length apply blast
        using 1(1) skip_ws_Cons_length apply blast
        done
      then have "2 * length r2 < k'" using k k' by simp
      with 1(4) have pv: "parse_value k' r2 = Some (v, r3)" by (rule IHv)
      from 1(6) show ?thesis
      proof
        assume "c3 = 0x2C \<and> (\<exists>ms'. parse_members n r4 = Some (ms', t) \<and> ms = (key, v) # ms')"
        then obtain ms' where c: "c3 = 0x2C" and p: "parse_members n r4 = Some (ms', t)"
          and ms: "ms = (key, v) # ms'" by blast
        have "2 * length r4 + 1 < k'" using l k k' by simp
        with p have "parse_members k' r4 = Some (ms', t)" by (rule IHm)
        with 1 pv c ms show ?thesis by (simp add: k')
      next
        assume "c3 = 0x7D \<and> ms = [(key, v)] \<and> t = r4"
        with 1 pv show ?thesis by (simp add: k')
      qed
    qed
  qed
  have e: "parse_elements k s = Some (vs, t)"
    if "parse_elements (Suc n) s = Some (vs, t)" and k: "2 * length s + 1 < k" for s vs t k
  proof -
    obtain k' where k': "k = Suc k'" using k by (cases k) auto
    from that(1) show ?thesis
    proof (cases rule: parse_elements_Suc_Some)
      case (1 v r c r')
      have l: "length r' < length r" "length r \<le> length s"
        using 1(2) skip_ws_Cons_length apply blast
        using 1(1) parse_value_length apply blast
        done
      have "2 * length s < k'" using k k' by simp
      with 1(1) have pv: "parse_value k' s = Some (v, r)" by (rule IHv)
      from 1(3) show ?thesis
      proof
        assume "c = 0x2C \<and> (\<exists>vs'. parse_elements n r' = Some (vs', t) \<and> vs = v # vs')"
        then obtain vs' where c: "c = 0x2C" and p: "parse_elements n r' = Some (vs', t)"
          and vs: "vs = v # vs'" by blast
        have "2 * length r' + 1 < k'" using l k k' by simp
        with p have "parse_elements k' r' = Some (vs', t)" by (rule IHe)
        with 1 pv c vs show ?thesis by (simp add: k')
      next
        assume "c = 0x5D \<and> vs = [v] \<and> t = r'"
        with 1 pv show ?thesis by (simp add: k')
      qed
    qed
  qed
  show ?case
  proof (intro conjI allI impI)
    fix s and x :: "json \<times> jsstring" and k
    assume "parse_value (Suc n) s = Some x" "2 * length s < k"
    then show "parse_value k s = Some x" using v [of s "fst x" "snd x" k] by simp
  next
    fix s and x :: "(jsstring \<times> json) list \<times> jsstring" and k
    assume "parse_members (Suc n) s = Some x" "2 * length s + 1 < k"
    then show "parse_members k s = Some x" using m [of s "fst x" "snd x" k] by simp
  next
    fix s and x :: "json list \<times> jsstring" and k
    assume "parse_elements (Suc n) s = Some x" "2 * length s + 1 < k"
    then show "parse_elements k s = Some x" using e [of s "fst x" "snd x" k] by simp
  qed
qed

text \<open>
  So the bound \<open>JSON.parse\<close> starts with is as good as any greater one: a text it
  rejects is rejected for its syntax, with whatever bound.
\<close>

lemma JSON_parse_bound:
  assumes "2 * length s < n"
  shows "parse_value n s = parse_value (Suc (2 * length s)) s"
proof (cases "parse_value n s")
  case (Some x)
  then have "parse_value (Suc (2 * length s)) s = Some x"
    using parse_enough [of n, THEN conjunct1, rule_format, of s x "Suc (2 * length s)"] by simp
  with Some show ?thesis by simp
next
  case None
  show ?thesis
  proof (cases "parse_value (Suc (2 * length s)) s")
    case (Some x)
    then have "parse_value n s = Some x"
      using parse_enough [of "Suc (2 * length s)", THEN conjunct1, rule_format, of s x n] assms by simp
    with None show ?thesis by simp
  qed (simp add: None)
qed

subsection \<open>Strings survive quoting and parsing\<close>

lemma unat_of_nat_small: "n < 65536 \<Longrightarrow> unat (of_nat n :: 16 word) = n"
  by (simp only: unat_of_nat) simp

lemma unat_digit: "n < 10 \<Longrightarrow> unat (48 + of_nat n :: 16 word) = 48 + n"
  using unat_of_nat_small [of "48 + n"] by simp

lemma unat_letter: "n < 16 \<Longrightarrow> unat (87 + of_nat n :: 16 word) = 87 + n"
  using unat_of_nat_small [of "87 + n"] by simp

lemma hex_value_hex_digit: "n < 16 \<Longrightarrow> hex_value (hex_digit n) = Some n"
  by (simp add: hex_value_def hex_digit_def word_le_nat_alt unat_digit unat_letter)

lemma hex_digits_of: 
  fixes n :: nat
  shows "((n div 4096 * 16 + n div 256 mod 16) * 16 + n div 16 mod 16) * 16 + n mod 16 = n"
proof -
  have "n div 256 div 16 = n div (256 * 16)" by (rule div_mult2_eq [symmetric])
  then have x: "n div 4096 = n div 256 div 16" by simp
  have "n div 16 div 16 = n div (16 * 16)" by (rule div_mult2_eq [symmetric])
  then have y: "n div 256 = n div 16 div 16" by simp
  have 1: "n div 4096 * 16 + n div 256 mod 16 = n div 256"
    unfolding x by (rule div_mult_mod_eq)
  have "n div 16 div 16 * 16 + n div 16 mod 16 = n div 16"
    by (rule div_mult_mod_eq)
  then have 2: "n div 256 * 16 + n div 16 mod 16 = n div 16"
    unfolding y .
  have 3: "n div 16 * 16 + n mod 16 = n"
    by (rule div_mult_mod_eq)
  show ?thesis
    unfolding 1 2 3 ..
qed

lemma hex4_UnicodeEscape:
  assumes "UnicodeEscape c = [0x5C, 0x75, h3, h2, h1, h0]" 
  shows "hex4 h3 h2 h1 h0 = Some c"
proof -
  have "unat c < 2 ^ 16" using unsigned_less [of c, where 'a = nat] by simp
  then have l: "unat c < 65536" by simp
  then have "unat c div 4096 < 16" "unat c div 256 mod 16 < 16" "unat c div 16 mod 16 < 16" "unat c mod 16 < 16"
    by simp_all
  then have v: "hex4 h3 h2 h1 h0 =
      Some (of_nat (((unat c div 4096 * 16 + unat c div 256 mod 16) * 16 + unat c div 16 mod 16) * 16 + unat c mod 16))"
    using assms by (auto simp add: UnicodeEscape_def hex4_def hex_value_hex_digit)
  have w: "(of_nat (unat c) :: 16 word) = c" by simp
  show ?thesis
    unfolding v hex_digits_of w ..
qed

lemma parse_chars_plain:
  "\<not> c < 0x20 \<Longrightarrow> c \<noteq> 0x22 \<Longrightarrow> c \<noteq> 0x5C \<Longrightarrow>
     parse_chars (c # rest) = map_option (\<lambda>(v, t). (c # v, t)) (parse_chars rest)"
  by simp

lemma parse_chars_UnicodeEscape:
  "parse_chars (UnicodeEscape c @ rest) = map_option (\<lambda>(v, t). (c # v, t)) (parse_chars rest)"
proof -
  obtain h3 h2 h1 h0 where u: "UnicodeEscape c = [0x5C, 0x75, h3, h2, h1, h0]"
    by (simp add: UnicodeEscape_def)
  have "hex4 h3 h2 h1 h0 = Some c" using u by (rule hex4_UnicodeEscape)
  then show ?thesis unfolding u by simp
qed

lemma parse_chars_quote_unit:
  "parse_chars (quote_unit c @ rest) = map_option (\<lambda>(v, t). (c # v, t)) (parse_chars rest)"
proof -
  consider "c = 0x08" | "c = 0x09" | "c = 0x0A" | "c = 0x0C" | "c = 0x0D" | "c = 0x22" | "c = 0x5C"
    | "c \<noteq> 0x08" "c \<noteq> 0x09" "c \<noteq> 0x0A" "c \<noteq> 0x0C" "c \<noteq> 0x0D" "c \<noteq> 0x22" "c \<noteq> 0x5C"
      "c < 0x20 \<or> is_leading_surrogate c \<or> is_trailing_surrogate c"
    | "c \<noteq> 0x08" "c \<noteq> 0x09" "c \<noteq> 0x0A" "c \<noteq> 0x0C" "c \<noteq> 0x0D" "c \<noteq> 0x22" "c \<noteq> 0x5C"
      "\<not> (c < 0x20 \<or> is_leading_surrogate c \<or> is_trailing_surrogate c)"
    by blast
  then show ?thesis
  proof cases
    case 8
    then have "quote_unit c = UnicodeEscape c" by (simp add: quote_unit_def)
    then show ?thesis by (simp only: parse_chars_UnicodeEscape)
  next
    case 9
    then have "quote_unit c = [c]" by (simp add: quote_unit_def)
    then show ?thesis using 9 by simp
  qed (simp_all add: quote_unit_def unescape_def)
qed

lemma surrogate_plain:
  assumes "is_leading_surrogate c \<or> is_trailing_surrogate c"
  shows "\<not> c < 0x20" and "c \<noteq> 0x22" and "c \<noteq> 0x5C"
  using assms
  by (auto simp: is_leading_surrogate_def is_trailing_surrogate_def word_le_nat_alt word_less_nat_alt)

lemma parse_chars_quote_units:
  "parse_chars (quote_units s @ 0x22 # rest) = Some (s, rest)"
proof (induction s rule: quote_units.induct)
  case 1
  show ?case by simp
next
  case (2 c)
  show ?case by (simp add: parse_chars_quote_unit)
next
  case (3 c d cs)
  show ?case
  proof (cases "is_leading_surrogate c \<and> is_trailing_surrogate d")
    case True
    then have "parse_chars (c # d # quote_units cs @ 0x22 # rest) = Some (c # d # cs, rest)"
      using 3 surrogate_plain [of c] surrogate_plain [of d]
      by (simp add: parse_chars_plain del: parse_chars.simps)
    with True show ?thesis by simp
  next
    case False
    then have "quote_units (c # d # cs) @ 0x22 # rest = quote_unit c @ (quote_units (d # cs) @ 0x22 # rest)"
      by auto
    then show ?thesis
      using 3 False by (simp only: parse_chars_quote_unit) simp
  qed
qed

lemma parse_chars_QuoteJSONString:
  "QuoteJSONString s @ rest = 0x22 # quote_units s @ 0x22 # rest"
  by (simp add: QuoteJSONString_def)

subsection \<open>Whole numbers survive printing and parsing\<close>

lemma is_digit_digit: "n < 10 \<Longrightarrow> is_digit (48 + of_nat n)"
  by (simp add: is_digit_def word_le_nat_alt unat_digit)

lemma digit_zero: "n < 10 \<Longrightarrow> (48 + of_nat n = (0x30 :: code_unit)) = (n = 0)"
proof -
  assume "n < 10"
  then have "unat (48 + of_nat n :: code_unit) = 48 + n" by (rule unat_digit)
  moreover have "unat (0x30 :: code_unit) = 48" by simp
  ultimately have "(unat (48 + of_nat n :: code_unit) = unat (0x30 :: code_unit)) = (n = 0)" by simp
  then show ?thesis by (simp only: word_unat_eq_iff [symmetric])
qed

lemma of_nat_eq_0_small: "n < 10 \<Longrightarrow> ((of_nat n :: code_unit) = 0) = (n = 0)"
proof
  assume l: "n < 10" and z: "(of_nat n :: code_unit) = 0"
  from l have "unat (of_nat n :: code_unit) = n" by (simp add: unat_of_nat_small)
  with z show "n = 0" by simp
qed simp

lemma is_digit_decimal_digits: "c \<in> set (decimal_digits n) \<Longrightarrow> is_digit c"
proof (induction n arbitrary: c rule: decimal_digits.induct)
  case (1 n)
  show ?case
  proof (cases "n < 10")
    case True
    with 1(2) show ?thesis by (simp add: decimal_digits.simps [of n] is_digit_digit)
  next
    case False
    have "n mod 10 < 10" by simp
    then have "is_digit (48 + of_nat (n mod 10))" by (rule is_digit_digit)
    with False 1 show ?thesis by (auto simp: decimal_digits.simps [of n])
  qed
qed

lemma decimal_digits_not_empty: "decimal_digits n \<noteq> []"
  by (simp add: decimal_digits.simps [of n])

lemma decimal_Nil: "decimal [] = 0"
  by (simp add: decimal_def)

lemma decimal_snoc: "decimal (ds @ [c]) = 10 * decimal ds + (unat c - 48)"
  by (simp add: decimal_def)

lemma decimal_decimal_digits: "decimal (decimal_digits n) = n"
proof (induction n rule: decimal_digits.induct)
  case (1 n)
  show ?case
  proof (cases "n < 10")
    case True
    then show ?thesis by (simp add: decimal_digits.simps [of n] decimal_def unat_digit)
  next
    case False
    have "n mod 10 < 10" by simp
    then have "unat (48 + of_nat (n mod 10) :: code_unit) = 48 + n mod 10" by (rule unat_digit)
    with False 1 show ?thesis by (simp add: decimal_digits.simps [of n] decimal_snoc)
  qed
qed

lemma hd_decimal_digits: "hd (decimal_digits n) = 0x30 \<Longrightarrow> n = 0"
proof (induction n rule: decimal_digits.induct)
  case (1 n)
  show ?case
  proof (cases "n < 10")
    case True
    with 1(2) show ?thesis by (simp add: decimal_digits.simps [of n] of_nat_eq_0_small)
  next
    case False
    then have "hd (decimal_digits n) = hd (decimal_digits (n div 10))"
      by (simp add: decimal_digits.simps [of n] decimal_digits_not_empty)
    with 1 False have "n div 10 = 0" by simp
    with False show ?thesis by simp
  qed
qed

lemma decimal_digits_0: "decimal_digits 0 = [0x30]"
  by (simp add: decimal_digits.simps [of 0])

lemma integer_part_decimal_digits:
  assumes "\<not> is_digit c"
  shows "integer_part (decimal_digits n @ c # rest) = decimal_digits n"
proof (cases "n = 0")
  case True
  then show ?thesis by (simp add: decimal_digits_0 integer_part_def)
next
  case False
  obtain d ds where d: "decimal_digits n = d # ds"
    using decimal_digits_not_empty [of n] by (cases "decimal_digits n") auto
  have "d \<noteq> 0x30" using hd_decimal_digits [of n] False d by auto
  moreover have "takeWhile is_digit (decimal_digits n @ c # rest) = decimal_digits n"
    using assms is_digit_decimal_digits [of _ n] by (simp add: takeWhile_append2)
  ultimately show ?thesis by (simp add: integer_part_def d)
qed

lemma parse_number_decimal_digits:
  assumes "\<not> is_digit c" and "c \<noteq> 0x2E" and "c \<noteq> 0x65" and "c \<noteq> 0x45"
  shows "parse_number (decimal_digits n @ c # rest) = Some (of_nat n, c # rest)"
proof -
  obtain d ds where d: "decimal_digits n = d # ds"
    using decimal_digits_not_empty [of n] by (cases "decimal_digits n") auto
  have "is_digit d" using is_digit_decimal_digits [of d n] d by simp
  then have "d \<noteq> 0x2D" by (auto simp: is_digit_def word_le_nat_alt)
  then have n: "\<not> (decimal_digits n @ c # rest \<noteq> [] \<and> hd (decimal_digits n @ c # rest) = 0x2D)"
    by (simp add: d)
  have i: "integer_part (decimal_digits n @ c # rest) = decimal_digits n"
    using assms(1) by (rule integer_part_decimal_digits)
  have f: "fraction_part (c # rest) = Some ([], c # rest)"
    using assms by (simp add: fraction_part_def)
  have e: "exponent_part (c # rest) = Some (0, c # rest)"
    using assms by (simp add: exponent_part_def)
  show ?thesis
    unfolding parse_number_def Let_def
    by (simp only: n i if_False) (simp add: f e decimal_digits_not_empty decimal_decimal_digits
        power_of_ten_def decimal_Nil)
qed

lemma parse_number_minus_decimal_digits:
  assumes "\<not> is_digit c" and "c \<noteq> 0x2E" and "c \<noteq> 0x65" and "c \<noteq> 0x45"
  shows "parse_number (0x2D # decimal_digits n @ c # rest) = Some (- of_nat n, c # rest)"
proof -
  have i: "integer_part (decimal_digits n @ c # rest) = decimal_digits n"
    using assms(1) by (rule integer_part_decimal_digits)
  have f: "fraction_part (c # rest) = Some ([], c # rest)"
    using assms by (simp add: fraction_part_def)
  have e: "exponent_part (c # rest) = Some (0, c # rest)"
    using assms by (simp add: exponent_part_def)
  show ?thesis
    unfolding parse_number_def Let_def
    by (simp add: i f e decimal_digits_not_empty decimal_decimal_digits power_of_ten_def decimal_Nil)
qed

lemma parse_number_Number_toString:
  assumes "\<not> is_digit c" and "c \<noteq> 0x2E" and "c \<noteq> 0x65" and "c \<noteq> 0x45"
  shows "parse_number (Number_toString x @ c # rest) = Some (of_int (integer_of x), c # rest)"
proof (cases "integer_of x < 0")
  case True
  then have "(- of_nat (nat (- integer_of x)) :: rat) = of_int (integer_of x)" by simp
  with True show ?thesis
    using parse_number_minus_decimal_digits [OF assms, of "nat (- integer_of x)" rest]
    by (simp add: Number_toString_def)
next
  case False
  then have "(of_nat (nat (integer_of x)) :: rat) = of_int (integer_of x)" by simp
  with False show ?thesis
    using parse_number_decimal_digits [OF assms, of "nat (integer_of x)" rest]
    by (simp add: Number_toString_def)
qed

lemma Number_toString_first:
  "\<exists>d ds. Number_toString x = d # ds \<and> (d = 0x2D \<or> is_digit d)"
proof -
  obtain d ds where d: "decimal_digits (nat (integer_of x)) = d # ds"
    using decimal_digits_not_empty [of "nat (integer_of x)"]
    by (cases "decimal_digits (nat (integer_of x))") auto
  have "is_digit d" using is_digit_decimal_digits [of d "nat (integer_of x)"] d by simp
  with d show ?thesis by (simp add: Number_toString_def)
qed

subsection \<open>The payload survives \<open>JSON.stringify\<close> and \<open>JSON.parse\<close>\<close>

lemma parse_chars_plain_key: "plain k \<Longrightarrow> parse_chars (k @ 0x22 # rest) = Some (k, rest)"
  by (induction k) (simp_all add: plain_def)

lemma skip_ws_not_ws: "\<not> is_ws c \<Longrightarrow> skip_ws (c # r) = c # r"
  by (simp add: skip_ws_def)

lemma punctuation_not_ws:
  "\<not> is_ws 0x22" "\<not> is_ws 0x2C" "\<not> is_ws 0x3A" "\<not> is_ws 0x7B" "\<not> is_ws 0x7D"
  by (simp_all add: is_ws_def)

lemma punctuation_after_number:
  "\<not> is_digit 0x2C" "\<not> is_digit 0x7D"
  by (simp_all add: is_digit_def)

lemma parse_value_QuoteJSONString:
  "parse_value (Suc n) (QuoteJSONString s @ rest) = Some (JStr s, rest)"
  by (simp add: QuoteJSONString_def skip_ws_not_ws punctuation_not_ws parse_chars_quote_units
      del: parse_chars.simps)

lemma digit_not_special:
  assumes "d = 0x2D \<or> is_digit d"
  shows "\<not> is_ws d" and "d \<noteq> 0x7B" and "d \<noteq> 0x5B" and "d \<noteq> 0x22"
  using assms by (auto simp: is_digit_def is_ws_def word_le_nat_alt)

lemma parse_value_Number_toString:
  assumes "\<not> is_digit c" and "c \<noteq> 0x2E" and "c \<noteq> 0x65" and "c \<noteq> 0x45"
  shows "parse_value (Suc n) (Number_toString x @ c # rest) =
     Some (JNum (of_int (integer_of x)), c # rest)"
proof -
  obtain d ds where d: "Number_toString x = d # ds" and f: "d = 0x2D \<or> is_digit d"
    using Number_toString_first [of x] by blast
  have "parse_number (d # ds @ c # rest) = Some (of_int (integer_of x), c # rest)"
    using parse_number_Number_toString [OF assms, of x rest] d by simp
  then show ?thesis
    using f digit_not_special [OF f] by (simp add: d skip_ws_not_ws)
qed

lemma parse_members_string_comma:
  assumes "plain k"
  shows "parse_members (Suc (Suc n)) (0x22 # k @ 0x22 # 0x3A # QuoteJSONString v @ 0x2C # rest) =
     map_option (\<lambda>(ms, t). ((k, JStr v) # ms, t)) (parse_members (Suc n) rest)"
  using assms
  by (simp add: skip_ws_not_ws punctuation_not_ws parse_chars_plain_key parse_value_QuoteJSONString
      del: parse_chars.simps parse_value.simps)

lemma parse_members_number_comma:
  assumes "plain k"
  shows "parse_members (Suc (Suc n)) (0x22 # k @ 0x22 # 0x3A # Number_toString i @ 0x2C # rest) =
     map_option (\<lambda>(ms, t). ((k, JNum (of_int (integer_of i))) # ms, t)) (parse_members (Suc n) rest)"
  using assms
  by (simp add: skip_ws_not_ws punctuation_not_ws parse_chars_plain_key parse_value_Number_toString
      punctuation_after_number del: parse_chars.simps parse_value.simps)

lemma parse_members_number_end:
  assumes "plain k"
  shows "parse_members (Suc (Suc n)) (0x22 # k @ 0x22 # 0x3A # Number_toString i @ 0x7D # rest) =
     Some ([(k, JNum (of_int (integer_of i)))], rest)"
  using assms
  by (simp add: skip_ws_not_ws punctuation_not_ws parse_chars_plain_key parse_value_Number_toString
      punctuation_after_number del: parse_chars.simps parse_value.simps)

lemma plain_keys:
  "plain (js ''sessionId'')" "plain (js ''name'')" "plain (js ''date'')" "plain (js ''time'')"
  "plain (js ''duration'')" "plain (js ''generatedAt'')" "plain (js ''expiresAfter'')"
  by (simp_all add: plain_def js_def)

lemma JSON_stringify_members:
  "JSON_stringify q =
     0x7B # 0x22 # js ''sessionId'' @ 0x22 # 0x3A # QuoteJSONString (qr_data.sessionId q) @
     0x2C # 0x22 # js ''name'' @ 0x22 # 0x3A # QuoteJSONString (qr_data.name q) @
     0x2C # 0x22 # js ''date'' @ 0x22 # 0x3A # QuoteJSONString (qr_data.date q) @
     0x2C # 0x22 # js ''time'' @ 0x22 # 0x3A # QuoteJSONString (qr_data.time q) @
     0x2C # 0x22 # js ''duration'' @ 0x22 # 0x3A # Number_toString (qr_data.duration q) @
     0x2C # 0x22 # js ''generatedAt'' @ 0x22 # 0x3A # QuoteJSONString (generatedAt q) @
     0x2C # 0x22 # js ''expiresAfter'' @ 0x22 # 0x3A # Number_toString (expiresAfter q) @
     0x7D # []"
  by (simp add: JSON_stringify_def js_def)

lemma parse_value_JSON_stringify:
  "parse_value (Suc (Suc (Suc (Suc (Suc (Suc (Suc (Suc (Suc n))))))))) (JSON_stringify q) =
     Some (parsed_payload q, [])"
  unfolding JSON_stringify_members parsed_payload_def
  by (simp add: skip_ws_not_ws punctuation_not_ws plain_keys
      parse_members_string_comma parse_members_number_comma parse_members_number_end
      del: parse_chars.simps parse_members.simps)

lemma length_JSON_stringify: "8 \<le> length (JSON_stringify q)"
  unfolding JSON_stringify_members by (simp add: js_def)

lemma JSON_parse_JSON_stringify: "JSON_parse (JSON_stringify q) = Some (parsed_payload q)"
proof -
  obtain m where "length (JSON_stringify q) = 8 + m"
    using length_JSON_stringify [of q] le_Suc_ex by blast
  then have "Suc (2 * length (JSON_stringify q)) =
      Suc (Suc (Suc (Suc (Suc (Suc (Suc (Suc (Suc (8 + 2 * m)))))))))"
    by simp
  then show ?thesis
    by (simp only: JSON_parse_def parse_value_JSON_stringify) (simp add: skip_ws_def)
qed

lemma integer_of_safe_60: "integer_of (safe 60) = 60"
  by (simp add: safe_inverse)

lemma decode_payload:
  assumes "qr_data.sessionId q \<noteq> []"
  shows "decode (JSON_stringify q) = Inr (parsed_payload q)"
proof -
  have "property (parsed_payload q) (js ''sessionId'') = Some (JStr (qr_data.sessionId q))"
    by (simp add: property_def parsed_payload_def js_def)
  moreover have "parsed_payload q \<noteq> JNull"
    by (simp add: parsed_payload_def)
  ultimately show ?thesis
    using assms by (simp add: decode_def JSON_parse_JSON_stringify)
qed

lemma property_qrData:
  "property (parsed_payload (qrData env values)) (js ''sessionId'') = Some (JStr (uuidv4 env))"
  "property (parsed_payload (qrData env values)) (js ''name'') = Some (JStr (form_values.name values))"
  "property (parsed_payload (qrData env values)) (js ''date'') = Some (JStr (form_values.date values))"
  "property (parsed_payload (qrData env values)) (js ''time'') = Some (JStr (form_values.time values))"
  "property (parsed_payload (qrData env values)) (js ''duration'') =
     Some (JNum (of_int (integer_of (form_values.duration values))))"
  by (simp_all add: property_def parsed_payload_def qrData_def js_def)

lemma qrValue_onSubmit:
  "qrValue (snd (onSubmit env values st)) = JSON_stringify (qrData env values)"
  by (simp add: onSubmit_def Let_def caught_def split: awaited.splits option.splits)


text \<open>
  C6. The text \<open>onSubmit\<close> puts into the QR code and into the row's \<open>qr_code\<close> is
  \<open>JSON.stringify\<close> of \<open>qrData\<close>. The scanner's check of it succeeds, and the value it
  gets has the \<open>sessionId\<close> generated for the session and the \<open>name\<close>, the \<open>date\<close>,
  the \<open>time\<close> and the \<open>duration\<close> of the session's row. A session's \<open>sessionId\<close> is a
  UUID, so it is not empty; the duration is a safe integer.
\<close>

theorem decode_qrData:
  assumes "uuidv4 env \<noteq> []"
  shows "qrValue (snd (onSubmit env values st)) = JSON_stringify (qrData env values)
    \<and> qr_code (sessionData env values) = JSON_stringify (qrData env values)
    \<and> (\<exists>parsedQR.
          decode (JSON_stringify (qrData env values)) = Inr parsedQR
        \<and> property parsedQR (js ''sessionId'') = Some (JStr (uuidv4 env))
        \<and> property parsedQR (js ''name'') = Some (JStr (session.name (sessionData env values)))
        \<and> property parsedQR (js ''date'') = Some (JStr (session.date (sessionData env values)))
        \<and> property parsedQR (js ''time'') = Some (JStr (session.time (sessionData env values)))
        \<and> property parsedQR (js ''duration'') =
              Some (JNum (of_int (integer_of (session.duration (sessionData env values))))))"
proof -
  have "qr_data.sessionId (qrData env values) \<noteq> []"
    using assms by (simp add: qrData_def)
  then have d: "decode (JSON_stringify (qrData env values)) = Inr (parsed_payload (qrData env values))"
    by (rule decode_payload)
  have s: "session.name (sessionData env values) = form_values.name values"
    "session.date (sessionData env values) = form_values.date values"
    "session.time (sessionData env values) = form_values.time values"
    "session.duration (sessionData env values) = form_values.duration values"
    "qr_code (sessionData env values) = JSON_stringify (qrData env values)"
    by (simp_all add: sessionData_def)
  show ?thesis
    by (simp add: qrValue_onSubmit d s property_qrData)
qed

theorem decode_qrData_witness:
  "uuidv4 run_ok \<noteq> []
   \<and> qrValue (snd (onSubmit run_ok cs102_form ([cs101], blank_generator))) =
       JSON_stringify (qrData run_ok cs102_form)
   \<and> (\<exists>parsedQR.
         decode (JSON_stringify (qrData run_ok cs102_form)) = Inr parsedQR
       \<and> property parsedQR (js ''sessionId'') = Some (JStr (js ''3f2b8c1e-7a4d-4e0b-9c55-0d6a1b2c3d4e''))
       \<and> property parsedQR (js ''name'') = Some (JStr (js ''CS102''))
       \<and> property parsedQR (js ''date'') = Some (JStr (js ''2024-01-10''))
       \<and> property parsedQR (js ''time'') = Some (JStr (js ''10:00''))
       \<and> property parsedQR (js ''duration'') = Some (JNum 60))"
proof -
  have u: "uuidv4 run_ok = js ''3f2b8c1e-7a4d-4e0b-9c55-0d6a1b2c3d4e''"
    by (simp add: run_ok_def)
  have n: "uuidv4 run_ok \<noteq> []"
    by (simp add: run_ok_def js_def)
  have s: "session.name (sessionData run_ok cs102_form) = js ''CS102''"
    "session.date (sessionData run_ok cs102_form) = js ''2024-01-10''"
    "session.time (sessionData run_ok cs102_form) = js ''10:00''"
    "integer_of (session.duration (sessionData run_ok cs102_form)) = 60"
    by (simp_all add: sessionData_def cs102_form_def integer_of_safe_60)
  show ?thesis
    using decode_qrData [OF n, of cs102_form "([cs101], blank_generator)"] n
    by (simp add: s u)
qed

subsection \<open>Decoding a scanned text\<close>

lemma parse_value_sessionId_2:
  "parse_value (Suc (Suc (Suc n))) (js ''{\"sessionId\":\"2\"}'') =
     Some (JObj [(js ''sessionId'', JStr (js ''2''))], [])"
  by (simp add: js_def skip_ws_def is_ws_def)

lemma JSON_parse_sessionId_2:
  "JSON_parse (js ''{\"sessionId\":\"2\"}'') = Some (JObj [(js ''sessionId'', JStr (js ''2''))])"
proof -
  have "Suc (2 * length (js ''{\"sessionId\":\"2\"}'')) = Suc (Suc (Suc 32))"
    by (simp add: js_def)
  then show ?thesis
    by (simp only: JSON_parse_def parse_value_sessionId_2) (simp add: skip_ws_def)
qed

lemma decode_sessionId_2:
  "decode (js ''{\"sessionId\":\"2\"}'') = Inr (JObj [(js ''sessionId'', JStr (js ''2''))])"
  by (simp add: decode_def JSON_parse_sessionId_2 property_def) (simp add: js_def)

lemma parse_value_sessionId_empty:
  "parse_value (Suc (Suc (Suc n))) (js ''{\"sessionId\":\"\"}'') =
     Some (JObj [(js ''sessionId'', JStr [])], [])"
  by (simp add: js_def skip_ws_def is_ws_def)

lemma JSON_parse_sessionId_empty:
  "JSON_parse (js ''{\"sessionId\":\"\"}'') = Some (JObj [(js ''sessionId'', JStr [])])"
proof -
  have "Suc (2 * length (js ''{\"sessionId\":\"\"}'')) = Suc (Suc (Suc 30))"
    by (simp add: js_def)
  then show ?thesis
    by (simp only: JSON_parse_def parse_value_sessionId_empty) (simp add: skip_ws_def)
qed

lemma decode_sessionId_empty: "decode (js ''{\"sessionId\":\"\"}'') = Inl invalid_format"
  by (simp add: decode_def JSON_parse_sessionId_empty property_def)

lemma decode_Inl: "decode scanned = Inl m \<Longrightarrow> m = invalid_format"
  by (auto simp: decode_def split: option.splits if_splits)

lemma decode_Inr: "decode scanned = Inr v \<Longrightarrow> JSON_parse scanned = Some v"
  by (auto simp: decode_def split: option.splits if_splits)

lemma decode_fails:
  "(\<exists>m. decode scanned = Inl m) \<longleftrightarrow>
     JSON_parse scanned = None
     \<or> (\<exists>v. JSON_parse scanned = Some v
           \<and> (property v (js ''sessionId'') = None
               \<or> (\<exists>x. property v (js ''sessionId'') = Some x \<and> \<not> truthy x)))"
  by (auto simp: decode_def property_def split: option.splits if_splits)

lemma falsy: 
  "\<not> truthy x \<longleftrightarrow>
     x = JNull \<or> x = JBool False \<or> x = JStr [] \<or> (\<exists>q. x = JNum q \<and> \<bar>q\<bar> \<le> 1 / 2 ^ 1075)"
  by (cases x) auto

text \<open>
  C7, as the code has it. Decoding fails, always with the one error, exactly when
  \<open>JSON.parse\<close> throws or the parsed value has no \<open>sessionId\<close> property or a falsy
  one: \<open>null\<close>, \<open>false\<close>, the empty string or a number whose double is zero. What it
  returns otherwise is the parsed value. It is a function of the text alone: it has no
  other argument, neither a clock nor a store.
\<close>

theorem decode_fails_iff:
  "((\<exists>m. decode scanned = Inl m) \<longleftrightarrow>
       JSON_parse scanned = None
       \<or> (\<exists>v. JSON_parse scanned = Some v
             \<and> (property v (js ''sessionId'') = None
                 \<or> (\<exists>x. property v (js ''sessionId'') = Some x \<and> \<not> truthy x))))
   \<and> (\<not> truthy x \<longleftrightarrow>
         x = JNull \<or> x = JBool False \<or> x = JStr [] \<or> (\<exists>q. x = JNum q \<and> \<bar>q\<bar> \<le> 1 / 2 ^ 1075))
   \<and> (decode scanned = Inl m \<longrightarrow> m = invalid_format)
   \<and> (decode scanned = Inr v \<longrightarrow> JSON_parse scanned = Some v)"
  using decode_fails [of scanned] falsy [of x] decode_Inl [of scanned m] decode_Inr [of scanned v]
  by blast

theorem decode_fails_iff_witness:
  "decode (js ''{\"sessionId\":\"\"}'') = Inl invalid_format
   \<and> JSON_parse (js ''{\"sessionId\":\"\"}'') = Some (JObj [(js ''sessionId'', JStr [])])
   \<and> \<not> truthy (JStr [])
   \<and> decode (js ''{\"sessionId\":\"2\"}'') = Inr (JObj [(js ''sessionId'', JStr (js ''2''))])
   \<and> JSON_parse (js ''{\"sessionId\":\"2\"}'') = Some (JObj [(js ''sessionId'', JStr (js ''2''))])"
  using
    decode_fails_iff [of "js ''{\"sessionId\":\"\"}''" "JStr []" invalid_format "JNull"]
    decode_fails_iff [of "js ''{\"sessionId\":\"2\"}''" "JStr []" invalid_format
      "JObj [(js ''sessionId'', JStr (js ''2''))]"]
    decode_sessionId_empty decode_sessionId_2 JSON_parse_sessionId_empty JSON_parse_sessionId_2
  by simp

text \<open>
  C7 as stated fails: this text is parsed, and the parsed payload has a \<open>sessionId\<close>,
  the empty string; decoding fails all the same.
\<close>

theorem decode_empty_sessionId_counterexample:
  "JSON_parse (js ''{\"sessionId\":\"\"}'') = Some (JObj [(js ''sessionId'', JStr [])])
   \<and> property (JObj [(js ''sessionId'', JStr [])]) (js ''sessionId'') = Some (JStr [])
   \<and> decode (js ''{\"sessionId\":\"\"}'') = Inl invalid_format"
  by (simp add: JSON_parse_sessionId_empty decode_sessionId_empty property_def)

subsection \<open>Creating a session\<close>

lemma filter_is_active_deactivate_active [simp]:
  "filter is_active (deactivate_active sessions) = []"
  by (induction sessions) (auto simp: deactivate_active_def)

lemma is_active_sessionData [simp]: "is_active (sessionData env values)"
  by (simp add: sessionData_def)

lemma onSubmit_sessions:
  assumes "toDataURL env (JSON_stringify (qrData env values)) = Resolved url"
  shows "fst (onSubmit env values (sessions, ui)) =
     (if insertion env = Resolved None
      then (if deactivation env = Resolved None then deactivate_active sessions else sessions)
             @ [sessionData env values]
      else (if deactivation env = Resolved None then deactivate_active sessions else sessions))"
  using assms
  by (simp add: onSubmit_def Let_def insert_session_def split: awaited.splits option.splits)

lemma onSubmit_page:
  assumes "toDataURL env (JSON_stringify (qrData env values)) = Resolved url"
  shows "sessionSaved (snd (onSubmit env values st)) = (insertion env = Resolved None)"
    and "(generator.errorMessage (snd (onSubmit env values st)) \<noteq> None) = (insertion env \<noteq> Resolved None)"
  using assms
  by (simp_all add: onSubmit_def Let_def caught_def split: awaited.splits option.splits)

text \<open>
  C1, as the code has it. In a run whose deactivation is carried out, at most one
  session is active afterwards; when the insert is carried out too, exactly one is, the
  new one.
\<close>

theorem onSubmit_one_active:
  assumes "toDataURL env (JSON_stringify (qrData env values)) = Resolved url"
    and "deactivation env = Resolved None"
  shows "length (filter is_active (fst (onSubmit env values (sessions, ui)))) \<le> 1
    \<and> (insertion env = Resolved None \<longrightarrow>
         filter is_active (fst (onSubmit env values (sessions, ui))) = [sessionData env values])"
  using assms by (simp add: onSubmit_sessions)

theorem onSubmit_one_active_witness:
  "toDataURL run_ok (JSON_stringify (qrData run_ok cs102_form)) = Resolved (js ''data:image/png;base64,'')
   \<and> deactivation run_ok = Resolved None
   \<and> insertion run_ok = Resolved None
   \<and> filter is_active (fst (onSubmit run_ok cs102_form ([cs101], blank_generator))) =
       [sessionData run_ok cs102_form]
   \<and> length (filter is_active (fst (onSubmit run_ok cs102_form ([cs101], blank_generator)))) \<le> 1"
  using onSubmit_one_active [of run_ok cs102_form "js ''data:image/png;base64,''" "[cs101]" blank_generator]
  by (simp add: run_ok_def)

text \<open>
  C1 as stated fails: with CS101 active, a run whose deactivation the store refuses
  and whose insert it carries out ends with two active sessions.
\<close>

theorem onSubmit_two_active_counterexample:
  "length (filter is_active
     (fst (onSubmit run_deactivation_refused cs102_form ([cs101], blank_generator)))) = 2"
  by (simp add: onSubmit_def Let_def run_deactivation_refused_def run_ok_def insert_session_def
      sessionData_def cs101_def)

text \<open>
  C8, as the code has it. Once the QR image is made, the run ends in an error exactly
  when the insert is not carried out. A deactivation that is not carried out changes
  neither that nor the insert, which adds the new session to the untouched table. A
  deactivation that was carried out stays when the insert then fails.
\<close>

theorem onSubmit_error_iff_insert_fails:
  assumes "toDataURL env (JSON_stringify (qrData env values)) = Resolved url"
  shows "(generator.errorMessage (snd (onSubmit env values (sessions, ui))) \<noteq> None
            \<longleftrightarrow> insertion env \<noteq> Resolved None)
    \<and> (sessionSaved (snd (onSubmit env values (sessions, ui))) \<longleftrightarrow> insertion env = Resolved None)
    \<and> (deactivation env \<noteq> Resolved None \<and> insertion env = Resolved None \<longrightarrow>
         fst (onSubmit env values (sessions, ui)) = sessions @ [sessionData env values])
    \<and> (deactivation env = Resolved None \<and> insertion env \<noteq> Resolved None \<longrightarrow>
         fst (onSubmit env values (sessions, ui)) = deactivate_active sessions)"
  using assms onSubmit_page [OF assms] by (simp add: onSubmit_sessions)

theorem onSubmit_error_iff_insert_fails_witness:
  "toDataURL run_insert_refused (JSON_stringify (qrData run_insert_refused cs102_form)) =
     Resolved (js ''data:image/png;base64,'')
   \<and> generator.errorMessage (snd (onSubmit run_insert_refused cs102_form ([cs101], blank_generator))) \<noteq> None
   \<and> \<not> sessionSaved (snd (onSubmit run_insert_refused cs102_form ([cs101], blank_generator)))
   \<and> fst (onSubmit run_insert_refused cs102_form ([cs101], blank_generator)) = deactivate_active [cs101]
   \<and> toDataURL run_deactivation_refused (JSON_stringify (qrData run_deactivation_refused cs102_form)) =
     Resolved (js ''data:image/png;base64,'')
   \<and> generator.errorMessage
        (snd (onSubmit run_deactivation_refused cs102_form ([cs101], blank_generator))) = None
   \<and> sessionSaved (snd (onSubmit run_deactivation_refused cs102_form ([cs101], blank_generator)))
   \<and> fst (onSubmit run_deactivation_refused cs102_form ([cs101], blank_generator)) =
       [cs101, sessionData run_deactivation_refused cs102_form]"
  using
    onSubmit_error_iff_insert_fails
      [of run_insert_refused cs102_form "js ''data:image/png;base64,''" "[cs101]" blank_generator]
    onSubmit_error_iff_insert_fails
      [of run_deactivation_refused cs102_form "js ''data:image/png;base64,''" "[cs101]" blank_generator]
  by (simp add: run_insert_refused_def run_deactivation_refused_def run_ok_def)

text \<open>
  C8 as stated fails twice. A run whose deactivation the store refuses ends in
  success, with the session saved and no error. A run whose insert the store refuses
  after the deactivation leaves CS101 deactivated.
\<close>

theorem onSubmit_storage_error_counterexample:
  "deactivation run_deactivation_refused = Resolved (Some refused)
   \<and> sessionSaved (snd (onSubmit run_deactivation_refused cs102_form ([cs101], blank_generator)))
   \<and> generator.errorMessage
        (snd (onSubmit run_deactivation_refused cs102_form ([cs101], blank_generator))) = None
   \<and> insertion run_insert_refused = Resolved (Some refused)
   \<and> fst (onSubmit run_insert_refused cs102_form ([cs101], blank_generator)) =
       [cs101\<lparr>is_active := False\<rparr>]
   \<and> [cs101\<lparr>is_active := False\<rparr>] \<noteq> [cs101]"
  by (simp add: onSubmit_def Let_def run_deactivation_refused_def run_insert_refused_def run_ok_def
      deactivate_active_def cs101_def)

subsection \<open>Expiry\<close>










lemma find_append:
  "find P (xs @ ys) = (case find P xs of None \<Rightarrow> find P ys | Some x \<Rightarrow> Some x)"
  by (induction xs) auto

lemma find_None_filter: "find P xs = None \<Longrightarrow> filter P xs = []"
  by (induction xs) (auto split: if_splits)

lemma find_Some_filter: "find P xs = Some x \<Longrightarrow> P x \<and> x \<in> set xs \<and> 1 \<le> length (filter P xs)"
  by (induction xs) (auto split: if_splits)









subsection \<open>Recording attendance\<close>

text \<open>
  C2, on the recorder of the spec. Two scans of one valid payload for one user, both
  before the session expires, starting from a table with at most one record for the
  pair: both return the same record, the second as already recorded and without
  touching the table, which then holds exactly one record for the pair. The first
  returns it as newly recorded exactly when the table had none. The scanner page, once
  it has fetched the records, counts the user as checked in for the session.
\<close>

theorem recordAttendance_twice:
  assumes "decode scanned = Inr payload"
    and "find (\<lambda>s. property payload (js ''sessionId'') = Some (JStr (row_id s))) sessions = Some s"
    and "now1 \<le> expires_at s" and "now2 \<le> expires_at s"
    and "length (filter (\<lambda>r. sessionId r = row_id s \<and> userId r = u) records) \<le> 1"
  shows "\<exists>r flag records1.
      recordAttendance sessions now1 fresh1 records scanned u = Inr (r, flag, records1)
    \<and> recordAttendance sessions now2 fresh2 records1 scanned u = Inr (r, Already_recorded, records1)
    \<and> length (filter (\<lambda>r. sessionId r = row_id s \<and> userId r = u) records1) = 1
    \<and> (flag = Newly_recorded \<longleftrightarrow> filter (\<lambda>r. sessionId r = row_id s \<and> userId r = u) records = [])
    \<and> isCheckedIn_page (Some records1) (Some s)"
proof (cases "find (\<lambda>r. sessionId r = row_id s \<and> userId r = u) records")
  case None
  let ?r = "\<lparr>record_id = fresh1, sessionId = row_id s, userId = u, checkInTime = now1,
             status = js ''present''\<rparr>"
  have e: "filter (\<lambda>r. sessionId r = row_id s \<and> userId r = u) records = []"
    using None by (rule find_None_filter)
  have 1: "recordAttendance sessions now1 fresh1 records scanned u = Inr (?r, Newly_recorded, records @ [?r])"
    using assms None by (simp add: recordAttendance_def Let_def)
  have 2: "recordAttendance sessions now2 fresh2 (records @ [?r]) scanned u =
      Inr (?r, Already_recorded, records @ [?r])"
    using assms None by (simp add: recordAttendance_def find_append Let_def)
  have 3: "isCheckedIn_page (Some (records @ [?r])) (Some s)"
    by (simp add: isCheckedIn_page_def)
  show ?thesis
    using 1 2 3 e by simp
next
  case (Some r)
  have p: "1 \<le> length (filter (\<lambda>r. sessionId r = row_id s \<and> userId r = u) records)"
    and m: "sessionId r = row_id s" "r \<in> set records"
    using find_Some_filter [OF Some] by simp_all
  have 1: "recordAttendance sessions now1 fresh1 records scanned u = Inr (r, Already_recorded, records)"
    using assms Some by (simp add: recordAttendance_def)
  have 2: "recordAttendance sessions now2 fresh2 records scanned u = Inr (r, Already_recorded, records)"
    using assms Some by (simp add: recordAttendance_def)
  have 3: "isCheckedIn_page (Some records) (Some s)"
    using m by (auto simp: isCheckedIn_page_def list_ex_iff)
  have 4: "filter (\<lambda>r. sessionId r = row_id s \<and> userId r = u) records \<noteq> []"
    using p by auto
  show ?thesis
    using 1 2 3 4 p assms(5) by simp
qed

theorem recordAttendance_twice_witness:
  "decode (js ''{\"sessionId\":\"2\"}'') = Inr (JObj [(js ''sessionId'', JStr (js ''2''))])
   \<and> find (\<lambda>s. property (JObj [(js ''sessionId'', JStr (js ''2''))]) (js ''sessionId'') = Some (JStr (row_id s)))
        [cs101, cs102] = Some cs102
   \<and> 1704877260000 \<le> expires_at cs102 \<and> 1704877320000 \<le> expires_at cs102
   \<and> length (filter (\<lambda>r. sessionId r = row_id cs102 \<and> userId r = js ''u1'') []) \<le> 1
   \<and> (\<exists>r records1.
        recordAttendance [cs101, cs102] 1704877260000 (js ''a1'') [] (js ''{\"sessionId\":\"2\"}'') (js ''u1'') =
          Inr (r, Newly_recorded, records1)
      \<and> recordAttendance [cs101, cs102] 1704877320000 (js ''a2'') records1 (js ''{\"sessionId\":\"2\"}'') (js ''u1'') =
          Inr (r, Already_recorded, records1)
      \<and> length (filter (\<lambda>r. sessionId r = row_id cs102 \<and> userId r = js ''u1'') records1) = 1
      \<and> isCheckedIn_page (Some records1) (Some cs102))"
proof -
  have f: "find (\<lambda>s. property (JObj [(js ''sessionId'', JStr (js ''2''))]) (js ''sessionId'') = Some (JStr (row_id s)))
        [cs101, cs102] = Some cs102"
    by (simp add: property_def cs101_def cs102_def) (simp add: js_def)
  have x: "1704877260000 \<le> expires_at cs102" "1704877320000 \<le> expires_at cs102"
    by (simp_all add: cs101_def cs102_def)
  show ?thesis
    using recordAttendance_twice [OF decode_sessionId_2 f x, of "js ''u1''" "[]" "js ''a1''" "js ''a2''"] f x
      decode_sessionId_2
    by auto
qed

subsection \<open>The scanner's error display\<close>

lemma not_includes_empty: "p \<noteq> [] \<Longrightarrow> \<not> String_includes [] p"
  by simp


lemma toLowerCase_Nil [simp]: "toLowerCase [] = []"
  by (simp add: toLowerCase_def)






subsection \<open>The attendance rate\<close>

lemma binary64_23_40: "binary64 23 40 = (5179139571476070, - 53)"
  by (simp add: binary64_def scaled_def nearest_even_def bit_length.simps Let_def)

lemma times_double_23_40: "times_double (5179139571476070, - 53) 100 = (8092405580431359, - 47)"
  by (simp add: times_double_def binary64_def scaled_def nearest_even_def bit_length.simps Let_def)

lemma binary64_2_4: "binary64 2 4 = (4503599627370496, - 53)"
  by (simp add: binary64_def scaled_def nearest_even_def bit_length.simps Let_def)

lemma times_double_2_4: "times_double (4503599627370496, - 53) 100 = (7036874417766400, - 47)"
  by (simp add: times_double_def binary64_def scaled_def nearest_even_def bit_length.simps Let_def)

lemma counts_replicate:
  "totalSessions (Some (replicate p present_record @ replicate a absent_record)) = p + a"
  "presentSessions (Some (replicate p present_record @ replicate a absent_record)) = p"
  by (simp_all add: totalSessions_def presentSessions_def present_record_def absent_record_def js_def)

text \<open>
  C9. With 23 of 40 records present the rate is 57.5 percent, which rounds to 58. The
  quotient 23 / 40 is not a double; the nearest one is a little smaller, its product with
  100 is the double just below 57.5, and the page shows 57. The empty list gives 0 and
  the spec's example gives 50.
\<close>

theorem attendanceRate_23_of_40:
  "attendanceRate (Some (replicate 23 present_record @ replicate 17 absent_record)) = 57
   \<and> attendanceRate_spec (replicate 23 present_record @ replicate 17 absent_record) = 58
   \<and> attendanceRate (Some []) = 0
   \<and> attendanceRate None = 0
   \<and> attendanceRate (Some (replicate 2 present_record @ replicate 2 absent_record)) = 50
   \<and> attendanceRate_spec (replicate 2 present_record @ replicate 2 absent_record) = 50"
proof -
  have "attendanceRate (Some (replicate 23 present_record @ replicate 17 absent_record)) = 57"
    by (simp add: attendanceRate_def counts_replicate divide_double_def binary64_23_40
        times_double_23_40 Math_round_def)
  moreover have "attendanceRate (Some (replicate 2 present_record @ replicate 2 absent_record)) = 50"
    by (simp add: attendanceRate_def counts_replicate divide_double_def binary64_2_4
        times_double_2_4 Math_round_def)
  moreover have "attendanceRate (Some []) = 0" "attendanceRate None = 0"
    by (simp_all add: attendanceRate_def totalSessions_def)
  moreover have "attendanceRate_spec (replicate 23 present_record @ replicate 17 absent_record) = 58"
    "attendanceRate_spec (replicate 2 present_record @ replicate 2 absent_record) = 50"
    by (simp_all add: attendanceRate_spec_def present_record_def absent_record_def js_def)
  ultimately show ?thesis by simp
qed

subsection \<open>The active-session read\<close>

lemma maybeSingle_data:
  "data (maybeSingle rows) = (case rows of [r] \<Rightarrow> Some r | _ \<Rightarrow> None)"
  by (simp add: maybeSingle_def split: list.splits)

lemma maybeSingle_error_code:
  "error (maybeSingle rows) = Some e \<Longrightarrow> code e = js ''PGRST116''"
  by (auto simp: maybeSingle_def PGRST116_def split: list.splits)

lemma fetchActiveSession_activeSession:
  "activeSession (fetchActiveSession user (Resolved (maybeSingle rows)) q st) =
     (case rows of [r] \<Rightarrow> Some r | _ \<Rightarrow> None)"
  by (auto simp: fetchActiveSession_def maybeSingle_def PGRST116_def Let_def
      split: list.splits option.splits awaited.splits)

lemma filter_is_active_expires_at:
  "filter is_active (map (\<lambda>s. s\<lparr>expires_at := f s\<rparr>) sessions) =
     map (\<lambda>s. s\<lparr>expires_at := f s\<rparr>) (filter is_active sessions)"
  by (induction sessions) auto

text \<open>
  C4, as the code has it. On a store that answers, \<open>fetchActiveSession\<close> shows a session
  exactly when it is the only row whose \<open>is_active\<close> is true. Neither \<open>expires_at\<close>
  nor the clock is read: rewriting every row's \<open>expires_at\<close> changes nothing but that
  column of the session shown.
\<close>

theorem fetchActiveSession_sole_active_row:
  "activeSession (fetchActiveSession user (Resolved (select_active_session sessions)) q st) =
     (case filter is_active sessions of [s] \<Rightarrow> Some s | _ \<Rightarrow> None)
   \<and> (activeSession (fetchActiveSession user (Resolved (select_active_session sessions)) q st) = Some s
        \<longrightarrow> is_active s \<and> s \<in> set sessions)
   \<and> activeSession (fetchActiveSession user
          (Resolved (select_active_session (map (\<lambda>s. s\<lparr>expires_at := f s\<rparr>) sessions))) q st) =
       map_option (\<lambda>s. s\<lparr>expires_at := f s\<rparr>)
         (activeSession (fetchActiveSession user (Resolved (select_active_session sessions)) q st))"
proof -
  let ?shown = "\<lambda>rows. activeSession (fetchActiveSession user (Resolved (select_active_session rows)) q st)"
  have shown: "?shown rows = (case filter is_active rows of [s] \<Rightarrow> Some s | _ \<Rightarrow> None)" for rows
    by (simp add: select_active_session_def fetchActiveSession_activeSession)
  have "is_active s \<and> s \<in> set sessions" if "?shown sessions = Some s"
  proof -
    from that have "filter is_active sessions = [s]"
      by (simp add: shown split: list.splits)
    then have "s \<in> set (filter is_active sessions)" by simp
    then show ?thesis by simp
  qed
  moreover have "?shown (map (\<lambda>s. s\<lparr>expires_at := f s\<rparr>) sessions) =
      map_option (\<lambda>s. s\<lparr>expires_at := f s\<rparr>) (?shown sessions)"
    by (simp add: shown filter_is_active_expires_at split: list.splits)
  ultimately show ?thesis using shown by blast
qed

theorem fetchActiveSession_sole_active_row_witness:
  "activeSession (fetchActiveSession None
      (Resolved (select_active_session [cs101\<lparr>is_active := False\<rparr>, cs102])) no_attendance
      idle_dashboard) = Some cs102
   \<and> is_active cs102
   \<and> cs102 \<in> set [cs101\<lparr>is_active := False\<rparr>, cs102]"
  using fetchActiveSession_sole_active_row
    [of None "[cs101\<lparr>is_active := False\<rparr>, cs102]" no_attendance idle_dashboard cs102]
  by (simp add: cs101_def cs102_def)

text \<open>
  C4 as stated fails: half an hour after CS101 was created (twenty minutes after its
  \<open>expires_at\<close>) the row still has \<open>is_active = true\<close>, and the read shows it.
\<close>

theorem fetchActiveSession_expired_counterexample:
  "activeSession (fetchActiveSession None (Resolved (select_active_session [cs101]))
      no_attendance idle_dashboard) = Some cs101
   \<and> is_active cs101
   \<and> \<not> expires_at cs101 > (1704879000000 :: instant)"
  by (simp add: fetchActiveSession_def select_active_session_def maybeSingle_def cs101_def)

text \<open>
  C10. An answer whose error has the code \<open>PGRST116\<close> clears the active session; an
  answer with any other error, and a rejected request, leave the dashboard as it was. A
  store with no active row and a store with several both end as "no active session".
\<close>

theorem fetchActiveSession_PGRST116:
  "(code e = js ''PGRST116'' \<longrightarrow>
      fetchActiveSession user (Resolved \<lparr>data = d, error = Some e\<rparr>) q st = st\<lparr>activeSession := None\<rparr>)
   \<and> (code e \<noteq> js ''PGRST116'' \<longrightarrow>
      fetchActiveSession user (Resolved \<lparr>data = d, error = Some e\<rparr>) q st = st)
   \<and> fetchActiveSession user (Rejected x) q st = st
   \<and> (length (filter is_active sessions) \<noteq> 1 \<longrightarrow>
      activeSession (fetchActiveSession user (Resolved (select_active_session sessions)) q st) = None)"
proof -
  have "activeSession (fetchActiveSession user (Resolved (select_active_session sessions)) q st) = None"
    if "length (filter is_active sessions) \<noteq> 1"
    using that
    by (cases "filter is_active sessions" rule: list.exhaust; cases "tl (filter is_active sessions)")
       (auto simp: select_active_session_def fetchActiveSession_activeSession)
  then show ?thesis
    by (simp add: fetchActiveSession_def)
qed

theorem fetchActiveSession_PGRST116_witness:
  "fetchActiveSession None (Resolved \<lparr>data = None, error = Some PGRST116\<rparr>) no_attendance
      \<lparr>activeSession = Some cs101, isCheckedIn = True\<rparr> =
     \<lparr>activeSession = None, isCheckedIn = True\<rparr>
   \<and> fetchActiveSession None
        (Resolved \<lparr>data = None, error = Some \<lparr>code = js ''500'', message = js ''upstream''\<rparr>\<rparr>)
        no_attendance \<lparr>activeSession = Some cs101, isCheckedIn = True\<rparr> =
       \<lparr>activeSession = Some cs101, isCheckedIn = True\<rparr>
   \<and> fetchActiveSession None (Rejected failed_to_fetch)
        no_attendance \<lparr>activeSession = Some cs101, isCheckedIn = True\<rparr> =
       \<lparr>activeSession = Some cs101, isCheckedIn = True\<rparr>
   \<and> activeSession (fetchActiveSession None (Resolved (select_active_session [cs101, cs102]))
        no_attendance \<lparr>activeSession = Some cs101, isCheckedIn = True\<rparr>) = None
   \<and> activeSession (fetchActiveSession None (Resolved (select_active_session []))
        no_attendance \<lparr>activeSession = Some cs101, isCheckedIn = True\<rparr>) = None"
  using
    fetchActiveSession_PGRST116 [of PGRST116 None None no_attendance
      "\<lparr>activeSession = Some cs101, isCheckedIn = True\<rparr>" failed_to_fetch "[cs101, cs102]"]
    fetchActiveSession_PGRST116 [of "\<lparr>code = js ''500'', message = js ''upstream''\<rparr>" None None
      no_attendance "\<lparr>activeSession = Some cs101, isCheckedIn = True\<rparr>" failed_to_fetch "[]"]
  by (simp add: PGRST116_def js_def cs101_def cs102_def)

end
